theory Spec2Isabelle
  imports Complex_Main "HOL-Library.Product_Lexorder"
begin

section \<open>Strings\<close>

text \<open>
  Python strings are sequences of code points; a \<^typ>\<open>char\<close> stands for one code point
  (the model covers code points below 256). \<open>isspace\<close> is Python's \<open>str.isspace\<close> on
  that range: the characters \<open>str.strip()\<close> and \<open>str.split()\<close> treat as whitespace.
\<close>

definition isspace :: "char \<Rightarrow> bool" where
  "isspace c =
     (let n = (of_char c :: nat)
      in (9 \<le> n \<and> n \<le> 13) \<or> (28 \<le> n \<and> n \<le> 32) \<or> n = 133 \<or> n = 160)"

text \<open>\<open>s.strip()\<close>: leading and trailing whitespace removed.\<close>

definition strip :: "string \<Rightarrow> string" where
  "strip s = rev (dropWhile isspace (rev (dropWhile isspace s)))"

text \<open>
  \<open>s.split()\<close> with no argument: the maximal runs of non-whitespace characters, in
  order. \<open>cur\<close> is the word being read.
\<close>

fun split_ws :: "string \<Rightarrow> string \<Rightarrow> string list" where
  "split_ws cur [] = (if cur = [] then [] else [cur])"
| "split_ws cur (c # cs) =
     (if isspace c then (if cur = [] then split_ws [] cs else cur # split_ws [] cs)
      else split_ws (cur @ [c]) cs)"

definition str_split :: "string \<Rightarrow> string list" where
  "str_split s = split_ws [] s"

text \<open>\<open>' '.join(words)\<close>.\<close>

fun join_space :: "string list \<Rightarrow> string" where
  "join_space [] = []"
| "join_space [w] = w"
| "join_space (w # v # ws) = w @ CHR '' '' # join_space (v # ws)"

text \<open>
  \<open>s.split('---')\<close>: the string is cut at every occurrence of the delimiter, found
  from the left without overlap; the result always has at least one segment.
\<close>

fun split_delim :: "string \<Rightarrow> string \<Rightarrow> string list" where
  "split_delim cur [] = [cur]"
| "split_delim cur (c # cs) =
     (if take 3 (c # cs) = ''---'' then cur # split_delim [] (drop 2 cs)
      else split_delim (cur @ [c]) cs)"

section \<open>Parsing a batch reply (translator.py, \<open>_parse_batch_response\<close>)\<close>

text \<open>\<open>cleaned.startswith(('1.', ..., '9.'))\<close>.\<close>

definition starts_with_ordinal :: "string \<Rightarrow> bool" where
  "starts_with_ordinal s =
     (take 2 s \<in> set [''1.'', ''2.'', ''3.'', ''4.'', ''5.'', ''6.'', ''7.'', ''8.'', ''9.''])"

text \<open>What the loop appends for a segment that is not empty after trimming.\<close>

definition remove_numbering :: "string \<Rightarrow> string" where
  "remove_numbering cleaned =
     (if starts_with_ordinal cleaned then strip (drop 2 cleaned) else cleaned)"

text \<open>The \<open>for part in parts\<close> loop; \<open>translations\<close> is the list built so far.\<close>

fun clean_parts :: "string list \<Rightarrow> string list \<Rightarrow> string list" where
  "clean_parts [] translations = translations"
| "clean_parts (part # parts) translations =
     (let cleaned = strip part
      in if cleaned \<noteq> [] then clean_parts parts (translations @ [remove_numbering cleaned])
         else clean_parts parts translations)"

text \<open>The \<open>while len(translations) < expected_count\<close> loop.\<close>

function pad_translations :: "nat \<Rightarrow> string list \<Rightarrow> string list" where
  "pad_translations expected_count translations =
     (if length translations < expected_count
      then pad_translations expected_count (translations @ [''''])
      else translations)"
  by pat_completeness auto
termination
  by (relation "measure (\<lambda>(n, ts). n - length ts)") auto

declare pad_translations.simps [simp del]

definition parse_batch_response :: "string \<Rightarrow> nat \<Rightarrow> string list" where
  "parse_batch_response response expected_count =
     (let parts = split_delim [] response;
          translations = clean_parts parts [];
          translations = pad_translations expected_count translations
      in take expected_count translations)"

section \<open>Floating point\<close>

text \<open>
  Python floats are IEEE 754 doubles. A finite double is a real number, and every
  arithmetic operation, every conversion from an integer and every decimal literal yields
  the double nearest to the exact value, ties going to the even significand: \<open>fl\<close>. So
  \<open>a * b\<close> of the source is \<open>fl (a * b)\<close> and the literal \<open>0.55\<close> is \<open>fl (55 / 100)\<close>.
  Comparisons, \<open>min\<close> and \<open>max\<close> of doubles are exact. The model covers the range of
  normal doubles: no operation overflows or underflows, and no value is an infinity or a
  NaN.
\<close>

text \<open>The position of the leading bit of a positive natural number.\<close>

fun ilog2 :: "nat \<Rightarrow> nat" where
  "ilog2 n = (if n < 2 then 0 else Suc (ilog2 (n div 2)))"

declare ilog2.simps [simp del]

text \<open>For a positive \<open>x\<close>, the exponent \<open>e\<close> with \<open>2 ^ e \<le> x < 2 ^ (e + 1)\<close>.\<close>

definition exponent :: "real \<Rightarrow> int" where
  "exponent x =
     (if 1 \<le> x then int (ilog2 (nat \<lfloor>x\<rfloor>))
      else - int (ilog2 (nat \<lceil>1 / x\<rceil> - 1)) - 1)"

definition pow2 :: "int \<Rightarrow> real" where
  "pow2 e = (if 0 \<le> e then 2 ^ nat e else 1 / 2 ^ nat (- e))"

definition round_half_even :: "real \<Rightarrow> int" where
  "round_half_even s =
     (let n = \<lfloor>s\<rfloor>; r = s - of_int n
      in if r < 1 / 2 then n else if 1 / 2 < r then n + 1 else if even n then n else n + 1)"

text \<open>Rounding to a significand of 53 bits.\<close>

definition fl :: "real \<Rightarrow> real" where
  "fl x =
     (if x = 0 then 0
      else
        let a = \<bar>x\<bar>;
            e = exponent a;
            m = round_half_even (a * pow2 (52 - e))
        in sgn x * of_int m * pow2 (e - 52))"

section \<open>Geometry, blocks and configuration (utils.py, config.py)\<close>

record BoundingBox =
  x0 :: real
  y0 :: real
  x1 :: real
  y1 :: real

definition bbox_width :: "BoundingBox \<Rightarrow> real" where
  "bbox_width b = fl (x1 b - x0 b)"

definition bbox_height :: "BoundingBox \<Rightarrow> real" where
  "bbox_height b = fl (y1 b - y0 b)"

text \<open>The fields of \<open>TranslatorConfig\<close> that the translator and the reconstructor read.\<close>

record TranslatorConfig =
  adjust_font_size :: bool
  max_font_reduction :: real
  min_font_size :: real
  batch_size :: int
  compression :: bool

definition default_config :: TranslatorConfig where
  "default_config = \<lparr>adjust_font_size = True, max_font_reduction = fl (8 / 10),
     min_font_size = 6, batch_size = 10, compression = True\<rparr>"

section \<open>Font fitting (reconstructor.py, \<open>_calculate_font_size\<close>)\<close>

definition calculate_font_size ::
  "TranslatorConfig \<Rightarrow> string \<Rightarrow> BoundingBox \<Rightarrow> real \<Rightarrow> real" where
  "calculate_font_size config text bbox original_size =
     (if strip text = [] then original_size
      else
        let avg_char_width = fl (55 / 100);
            estimated_width =
              fl (fl (fl (real (length text)) * original_size) * avg_char_width);
            estimated_height = fl (original_size * fl (12 / 10));
            available_width = fl (bbox_width bbox * fl (95 / 100));
            available_height = fl (bbox_height bbox * fl (90 / 100))
        in if estimated_width \<le> available_width \<and> estimated_height \<le> available_height
           then original_size
           else
             let width_scale =
                   (if estimated_width > 0 then fl (available_width / estimated_width) else 1);
                 height_scale =
                   (if estimated_height > 0 then fl (available_height / estimated_height) else 1);
                 scale = min (min width_scale height_scale) 1;
                 scale = max scale (max_font_reduction config);
                 new_size = fl (original_size * scale);
                 new_size = max new_size (min_font_size config)
             in new_size)"

text \<open>
  Two names for the properties: the test of the early return (the text fits its box at
  the original size), and the scale \<open>min(width_scale, height_scale, 1.0)\<close> that the
  width and height fit ask for. Both are the source's expressions, in double arithmetic.
\<close>

definition text_fits :: "string \<Rightarrow> BoundingBox \<Rightarrow> real \<Rightarrow> bool" where
  "text_fits text bbox original_size =
     (fl (fl (fl (real (length text)) * original_size) * fl (55 / 100))
        \<le> fl (bbox_width bbox * fl (95 / 100))
      \<and> fl (original_size * fl (12 / 10)) \<le> fl (bbox_height bbox * fl (90 / 100)))"

definition fit_scale :: "string \<Rightarrow> BoundingBox \<Rightarrow> real \<Rightarrow> real" where
  "fit_scale text bbox original_size =
     (let estimated_width = fl (fl (fl (real (length text)) * original_size) * fl (55 / 100));
          estimated_height = fl (original_size * fl (12 / 10));
          width_scale =
            (if estimated_width > 0
             then fl (fl (bbox_width bbox * fl (95 / 100)) / estimated_width) else 1);
          height_scale =
            (if estimated_height > 0
             then fl (fl (bbox_height bbox * fl (90 / 100)) / estimated_height) else 1)
      in min (min width_scale height_scale) 1)"

section \<open>Word wrapping (reconstructor.py \<open>_wrap_text\<close>, utils.py \<open>split_text_to_fit\<close>)\<close>

text \<open>
  The \<open>for word in words\<close> loop of \<open>_wrap_text\<close>, with the lines closed so far and the
  line being filled. The \<open>font\<close> argument of the source is never read.
\<close>

fun wrap_text_loop ::
  "real \<Rightarrow> real \<Rightarrow> string list \<Rightarrow> string list \<Rightarrow> string list \<Rightarrow> string list \<times> string list" where
  "wrap_text_loop font_size max_width [] lines current_line = (lines, current_line)"
| "wrap_text_loop font_size max_width (word # words) lines current_line =
     (let test_line = join_space (current_line @ [word]);
          estimated_width = fl (fl (fl (real (length test_line)) * font_size) * fl (55 / 100))
      in if estimated_width \<le> max_width
         then wrap_text_loop font_size max_width words lines (current_line @ [word])
         else if current_line \<noteq> []
         then wrap_text_loop font_size max_width words (lines @ [join_space current_line]) [word]
         else wrap_text_loop font_size max_width words (lines @ [word]) current_line)"

definition wrap_text :: "string \<Rightarrow> real \<Rightarrow> real \<Rightarrow> string list" where
  "wrap_text text font_size max_width =
     (if strip text = [] then []
      else
        let words = str_split text;
            (lines, current_line) = wrap_text_loop font_size max_width words [] [];
            lines = (if current_line \<noteq> [] then lines @ [join_space current_line] else lines)
        in if lines \<noteq> [] then lines else [text])"

text \<open>utils.py: the same loop, with the width estimate of \<open>estimate_text_width\<close>.\<close>

definition estimate_text_width :: "string \<Rightarrow> real \<Rightarrow> real \<Rightarrow> real" where
  "estimate_text_width text font_size avg_char_width =
     fl (fl (fl (real (length text)) * font_size) * avg_char_width)"

fun split_text_to_fit_loop ::
  "real \<Rightarrow> real \<Rightarrow> real \<Rightarrow> string list \<Rightarrow> string list \<Rightarrow> string list
   \<Rightarrow> string list \<times> string list" where
  "split_text_to_fit_loop max_width font_size avg_char_width [] lines current_line =
     (lines, current_line)"
| "split_text_to_fit_loop max_width font_size avg_char_width (word # words) lines current_line =
     (let test_line = join_space (current_line @ [word])
      in if estimate_text_width test_line font_size avg_char_width \<le> max_width
         then split_text_to_fit_loop max_width font_size avg_char_width words lines
                (current_line @ [word])
         else if current_line \<noteq> []
         then split_text_to_fit_loop max_width font_size avg_char_width words
                (lines @ [join_space current_line]) [word]
         else split_text_to_fit_loop max_width font_size avg_char_width words (lines @ [word])
                current_line)"

definition split_text_to_fit :: "string \<Rightarrow> real \<Rightarrow> real \<Rightarrow> real \<Rightarrow> string list" where
  "split_text_to_fit text max_width font_size avg_char_width =
     (let words = str_split text;
          (lines, current_line) =
             split_text_to_fit_loop max_width font_size avg_char_width words [] []
      in if current_line \<noteq> [] then lines @ [join_space current_line] else lines)"

section \<open>Objects, the translation service and the translator's state\<close>

text \<open>
  \<open>TextBlock\<close> and \<open>BoundingBox\<close> are mutable Python objects, passed by reference and
  updated in place. The model keeps them in a store: a reference is an address, a list of
  blocks is a list of references, and \<open>block.bbox\<close> is the address of the block's box.
  The fields \<open>text\<close> and \<open>size\<close> of the source are \<open>text_str\<close> and \<open>size_pt\<close> here.
\<close>

type_synonym ref = nat

record TextBlock =
  text_str :: string
  bbox :: ref
  font :: string
  size_pt :: real
  color :: "real \<times> real \<times> real"
  page :: int
  translated_text :: string

text \<open>\<open>PageInfo\<close> (utils.py).\<close>

record PageInfo =
  page_number :: int
  width :: real
  height :: real
  rotation :: int

text \<open>
  The state the pipeline works on: the two stores with their allocation pointers (every
  address below the pointer is in use), the translator's \<open>translation_cache\<close> and the
  number of requests sent to the translation service so far.
\<close>

record world =
  blocks :: "ref \<Rightarrow> TextBlock"
  bboxes :: "ref \<Rightarrow> BoundingBox"
  next_block :: ref
  next_bbox :: ref
  translation_cache :: "string \<rightharpoonup> string"
  calls :: nat

text \<open>
  The translation service is outside the program. A request is identified by what the
  prompt is built from; the service is any function from the number of the request and the
  request to the reply's content, \<open>None\<close> standing for every way the call or the reading
  of \<open>response.choices[0].message.content.strip()\<close> can raise.
\<close>

datatype request =
  SingleRequest string string string "string option"
  | BatchRequest "string list" string string string

type_synonym client = "nat \<Rightarrow> request \<Rightarrow> string option"

text \<open>The exceptions that leave a function of the model.\<close>

datatype error = ValueError | IndexError | ZeroDivisionError

section \<open>The translator (translator.py)\<close>

text \<open>The f-string \<open>{text}:{source_lang}:{target_lang}\<close>.\<close>

definition cache_key :: "string \<Rightarrow> string \<Rightarrow> string \<Rightarrow> string" where
  "cache_key text source_lang target_lang = text @ '':'' @ source_lang @ '':'' @ target_lang"

text \<open>
  \<open>translate_text\<close>: whitespace-only text and cached text return without a request; a
  failed request returns the text and caches nothing.
\<close>

definition translate_text ::
  "client \<Rightarrow> world \<Rightarrow> string \<Rightarrow> string \<Rightarrow> string \<Rightarrow> string option \<Rightarrow> string \<times> world" where
  "translate_text client w text source_lang target_lang context =
     (if strip text = [] then (text, w)
      else
        case translation_cache w (cache_key text source_lang target_lang) of
          Some cached \<Rightarrow> (cached, w)
        | None \<Rightarrow>
            (case client (calls w) (SingleRequest text source_lang target_lang context) of
               None \<Rightarrow> (text, w\<lparr>calls := calls w + 1\<rparr>)
             | Some content \<Rightarrow>
                 (let translated = strip content
                  in (translated,
                      w\<lparr>calls := calls w + 1,
                        translation_cache :=
                          (translation_cache w)(cache_key text source_lang target_lang \<mapsto> translated)\<rparr>))))"

text \<open>The assignment \<open>block.translated_text = t\<close>.\<close>

definition set_translated_text :: "ref \<Rightarrow> string \<Rightarrow> world \<Rightarrow> world" where
  "set_translated_text b t w = w\<lparr>blocks := (blocks w)(b := (blocks w b)\<lparr>translated_text := t\<rparr>)\<rparr>"

text \<open>\<open>_translate_batch_individually\<close>; the list returned is \<open>batch\<close> itself.\<close>

fun translate_batch_individually ::
  "client \<Rightarrow> world \<Rightarrow> ref list \<Rightarrow> string \<Rightarrow> string \<Rightarrow> world" where
  "translate_batch_individually client w [] source_lang target_lang = w"
| "translate_batch_individually client w (b # batch) source_lang target_lang =
     (let (t, w') = translate_text client w (text_str (blocks w b)) source_lang target_lang None
      in translate_batch_individually client (set_translated_text b t w') batch source_lang target_lang)"

text \<open>
  The loop \<open>for block in batch\<close> of \<open>_translate_batch_with_context\<close> that writes the
  translations back, with its counter \<open>text_index\<close>.
\<close>

fun apply_translations ::
  "string list \<Rightarrow> string \<Rightarrow> string \<Rightarrow> ref list \<Rightarrow> nat \<Rightarrow> world \<Rightarrow> world" where
  "apply_translations translations source_lang target_lang [] text_index w = w"
| "apply_translations translations source_lang target_lang (b # batch) text_index w =
     (let block = blocks w b
      in if strip (text_str block) \<noteq> [] then
           (if text_index < length translations then
              (let w' = set_translated_text b (translations ! text_index) w;
                   w' = w'\<lparr>translation_cache :=
                          (translation_cache w')(cache_key (text_str block) source_lang target_lang
                             \<mapsto> translations ! text_index)\<rparr>
               in apply_translations translations source_lang target_lang batch (text_index + 1) w')
            else
              apply_translations translations source_lang target_lang batch text_index
                (set_translated_text b (text_str block) w))
         else
           apply_translations translations source_lang target_lang batch text_index
             (set_translated_text b (text_str block) w))"

text \<open>\<open>texts = [block.text for block in batch if block.text.strip()]\<close>.\<close>

definition batch_texts :: "world \<Rightarrow> ref list \<Rightarrow> string list" where
  "batch_texts w batch =
     map (\<lambda>b. text_str (blocks w b)) (filter (\<lambda>b. strip (text_str (blocks w b)) \<noteq> []) batch)"

text \<open>
  \<open>_translate_batch_with_context\<close>. Nothing is written before the reply is parsed, so the
  \<open>except\<close> branch starts from the state in which the request was sent.
\<close>

definition translate_batch_with_context ::
  "client \<Rightarrow> world \<Rightarrow> ref list \<Rightarrow> string \<Rightarrow> string \<Rightarrow> string \<Rightarrow> ref list \<times> world" where
  "translate_batch_with_context client w batch source_lang target_lang context =
     (let texts = batch_texts w batch
      in if texts = [] then (batch, w)
         else
           case client (calls w) (BatchRequest texts source_lang target_lang context) of
             None \<Rightarrow>
               (batch, translate_batch_individually client (w\<lparr>calls := calls w + 1\<rparr>) batch
                         source_lang target_lang)
           | Some content \<Rightarrow>
               (let response_text = strip content;
                    translations = parse_batch_response response_text (length texts)
                in (batch, apply_translations translations source_lang target_lang batch 0
                             (w\<lparr>calls := calls w + 1\<rparr>))))"

text \<open>
  \<open>_build_context\<close>: the stripped texts of up to three blocks before the batch and up to
  three after it. Both index ranges lie inside \<open>all_blocks\<close>.
\<close>

definition context_parts :: "world \<Rightarrow> ref list \<Rightarrow> nat list \<Rightarrow> string list" where
  "context_parts w all_blocks idxs =
     map (\<lambda>i. strip (text_str (blocks w (all_blocks ! i))))
       (filter (\<lambda>i. strip (text_str (blocks w (all_blocks ! i))) \<noteq> []) idxs)"

definition build_context :: "world \<Rightarrow> ref list \<Rightarrow> nat \<Rightarrow> nat \<Rightarrow> string" where
  "build_context w all_blocks current_index bsize =
     (let start_context = current_index - 3;
          before = context_parts w all_blocks [start_context ..< current_index];
          end_context = min (length all_blocks) (current_index + bsize + 3);
          after = context_parts w all_blocks [current_index + bsize ..< end_context]
      in join_space (before @ after))"

text \<open>\<open>range(0, stop, step)\<close> for a positive step.\<close>

definition range_step :: "nat \<Rightarrow> nat \<Rightarrow> nat list" where
  "range_step stop step = map (\<lambda>k. k * step) [0 ..< (stop + step - 1) div step]"

text \<open>The loop \<open>for i in range(0, len(sorted_blocks), batch_size)\<close>.\<close>

fun page_loop ::
  "client \<Rightarrow> string \<Rightarrow> string \<Rightarrow> ref list \<Rightarrow> nat \<Rightarrow> nat list \<Rightarrow> ref list \<Rightarrow> world
   \<Rightarrow> ref list \<times> world" where
  "page_loop client source_lang target_lang sorted_blocks bsize [] translated_blocks w =
     (translated_blocks, w)"
| "page_loop client source_lang target_lang sorted_blocks bsize (i # is) translated_blocks w =
     (let batch = take bsize (drop i sorted_blocks);
          context = build_context w sorted_blocks i bsize;
          (batch_translated, w') =
             translate_batch_with_context client w batch source_lang target_lang context
      in page_loop client source_lang target_lang sorted_blocks bsize is
           (translated_blocks @ batch_translated) w')"

text \<open>The sort key \<open>lambda b: (b.bbox.y0, b.bbox.x0)\<close>; pairs are ordered lexicographically.\<close>

definition position_key :: "world \<Rightarrow> ref \<Rightarrow> real \<times> real" where
  "position_key w b = (y0 (bboxes w (bbox (blocks w b))), x0 (bboxes w (bbox (blocks w b))))"

text \<open>
  \<open>_translate_page_blocks\<close>. Python's \<open>sorted\<close> is stable, as \<^const>\<open>sort_key\<close> is.
  \<open>range\<close> raises \<open>ValueError\<close> for a step of zero and is empty for a negative one.
\<close>

definition translate_page_blocks ::
  "client \<Rightarrow> TranslatorConfig \<Rightarrow> world \<Rightarrow> ref list \<Rightarrow> string \<Rightarrow> string
   \<Rightarrow> error + ref list \<times> world" where
  "translate_page_blocks client config w page_blocks source_lang target_lang =
     (let sorted_blocks = sort_key (position_key w) page_blocks
      in if batch_size config = 0 then Inl ValueError
         else if batch_size config < 0 then Inr ([], w)
         else Inr (page_loop client source_lang target_lang sorted_blocks (nat (batch_size config))
                     (range_step (length sorted_blocks) (nat (batch_size config))) [] w))"

text \<open>
  \<open>translate_text_blocks\<close>: the dictionary \<open>pages\<close> keeps its keys in insertion order, so
  it is an association list; \<open>add_to_page\<close> is \<open>pages[block.page].append(block)\<close>.
\<close>

fun add_to_page :: "int \<Rightarrow> ref \<Rightarrow> (int \<times> ref list) list \<Rightarrow> (int \<times> ref list) list" where
  "add_to_page p b [] = [(p, [b])]"
| "add_to_page p b ((q, bs) # pages) =
     (if q = p then (q, bs @ [b]) # pages else (q, bs) # add_to_page p b pages)"

fun group_by_page :: "world \<Rightarrow> ref list \<Rightarrow> (int \<times> ref list) list \<Rightarrow> (int \<times> ref list) list" where
  "group_by_page w [] pages = pages"
| "group_by_page w (b # text_blocks) pages =
     group_by_page w text_blocks (add_to_page (page (blocks w b)) b pages)"

fun translate_pages ::
  "client \<Rightarrow> TranslatorConfig \<Rightarrow> string \<Rightarrow> string \<Rightarrow> (int \<times> ref list) list \<Rightarrow> ref list
   \<Rightarrow> world \<Rightarrow> error + ref list \<times> world" where
  "translate_pages client config source_lang target_lang [] translated_blocks w =
     Inr (translated_blocks, w)"
| "translate_pages client config source_lang target_lang ((page_num, page_blocks) # pages)
     translated_blocks w =
     (case translate_page_blocks client config w page_blocks source_lang target_lang of
        Inl e \<Rightarrow> Inl e
      | Inr (page_translated, w') \<Rightarrow>
          translate_pages client config source_lang target_lang pages
            (translated_blocks @ page_translated) w')"

definition translate_text_blocks ::
  "client \<Rightarrow> TranslatorConfig \<Rightarrow> world \<Rightarrow> ref list \<Rightarrow> string \<Rightarrow> string
   \<Rightarrow> error + ref list \<times> world" where
  "translate_text_blocks client config w text_blocks source_lang target_lang =
     translate_pages client config source_lang target_lang (group_by_page w text_blocks []) [] w"

text \<open>\<open>text_block.translated_text or text_block.text\<close> (reconstructor.py).\<close>

definition rendered_text :: "TextBlock \<Rightarrow> string" where
  "rendered_text text_block =
     (if translated_text text_block \<noteq> [] then translated_text text_block else text_str text_block)"

section \<open>Page composition (reconstructor.py)\<close>

text \<open>
  The rendering library is outside the program: a composed page is its size and the list
  of drawing calls made on it, in order. \<open>has_page\<close> says for which page numbers
  \<open>original_doc[page_num]\<close> loads a page; elsewhere it raises \<open>IndexError\<close>.
\<close>

type_synonym rect = "real \<times> real \<times> real \<times> real"

type_synonym rgb = "real \<times> real \<times> real"

datatype draw_op =
    ShowPdfPage rect int
  | DrawLine "real \<times> real" "real \<times> real"
  | InsertText "real \<times> real" string real rgb
  | DrawRect rect
  | WriteText "real \<times> real" string real rgb

record out_page =
  page_width :: real
  page_height :: real
  ops :: "draw_op list"

type_synonym document = "out_page list"

text \<open>
  The loop \<open>for line in lines\<close> of \<open>_add_translated_text\<close>, with its \<open>break\<close>;
  \<open>line_height\<close> is computed once before the loop.
\<close>

fun write_lines ::
  "real \<Rightarrow> real \<Rightarrow> real \<Rightarrow> rgb \<Rightarrow> real \<Rightarrow> string list \<Rightarrow> real \<Rightarrow> draw_op list" where
  "write_lines px bottom font_size col line_height [] y_offset = []"
| "write_lines px bottom font_size col line_height (line # lines) y_offset =
     (if y_offset > bottom then []
      else WriteText (px, y_offset) line font_size col
             # write_lines px bottom font_size col line_height lines (fl (y_offset + line_height)))"

definition add_translated_text ::
  "TranslatorConfig \<Rightarrow> string option \<Rightarrow> world \<Rightarrow> ref \<Rightarrow> draw_op list" where
  "add_translated_text config unicode_font w text_block =
     (let block = blocks w text_block;
          text = rendered_text block
      in if strip text = [] then []
         else
           let box = bboxes w (bbox block);
               font_size = (if adjust_font_size config
                            then calculate_font_size config text box (size_pt block)
                            else size_pt block);
               insert_y = fl (y0 box + fl (font_size * fl (75 / 100)));
               insert_point = (fl (x0 box + 1), insert_y)
           in case unicode_font of
                Some font_file \<Rightarrow>
                  (let max_width = fl (bbox_width box - 2);
                       lines = wrap_text text font_size max_width;
                       line_height = fl (font_size * fl (12 / 10))
                   in write_lines (fst insert_point) (y1 box) font_size (color block) line_height
                        lines (snd insert_point))
              | None \<Rightarrow> [InsertText insert_point text font_size (color block)])"

text \<open>
  \<open>copy.deepcopy(text_block)\<close>: a new block object and a new box object, at the next
  free addresses; strings and tuples are immutable and shared.
\<close>

definition deepcopy :: "world \<Rightarrow> ref \<Rightarrow> ref \<times> world" where
  "deepcopy w b =
     (let a = next_bbox w; r = next_block w
      in (r, w\<lparr>bboxes := (bboxes w)(a := bboxes w (bbox (blocks w b))),
               blocks := (blocks w)(r := (blocks w b)\<lparr>bbox := a\<rparr>),
               next_bbox := a + 1, next_block := r + 1\<rparr>))"

text \<open>\<open>shifted_block.bbox.x0 += offset_x\<close> and \<open>shifted_block.bbox.x1 += offset_x\<close>.\<close>

definition shift_x0 :: "ref \<Rightarrow> real \<Rightarrow> world \<Rightarrow> world" where
  "shift_x0 b offset_x w =
     w\<lparr>bboxes := (bboxes w)(bbox (blocks w b) :=
          (bboxes w (bbox (blocks w b)))
            \<lparr>x0 := fl (x0 (bboxes w (bbox (blocks w b))) + offset_x)\<rparr>)\<rparr>"

definition shift_x1 :: "ref \<Rightarrow> real \<Rightarrow> world \<Rightarrow> world" where
  "shift_x1 b offset_x w =
     w\<lparr>bboxes := (bboxes w)(bbox (blocks w b) :=
          (bboxes w (bbox (blocks w b)))
            \<lparr>x1 := fl (x1 (bboxes w (bbox (blocks w b))) + offset_x)\<rparr>)\<rparr>"

text \<open>The loop \<open>for text_block in page_text_blocks\<close> of \<open>create_side_by_side_pdf\<close>.\<close>

fun draw_blocks ::
  "TranslatorConfig \<Rightarrow> string option \<Rightarrow> real \<Rightarrow> ref list \<Rightarrow> world \<Rightarrow> draw_op list \<times> world" where
  "draw_blocks config unicode_font offset_x [] w = ([], w)"
| "draw_blocks config unicode_font offset_x (text_block # page_text_blocks) w =
     (let box = bboxes w (bbox (blocks w text_block));
          rect = (fl (fl (x0 box + offset_x) - 1), fl (y0 box - 1),
                  fl (fl (x1 box + offset_x) + 1), fl (y1 box + 1));
          (shifted_block, w1) = deepcopy w text_block;
          w2 = shift_x0 shifted_block offset_x w1;
          w3 = shift_x1 shifted_block offset_x w2;
          text_ops = add_translated_text config unicode_font w3 shifted_block;
          (rest_ops, w4) = draw_blocks config unicode_font offset_x page_text_blocks w3
      in (DrawRect rect # text_ops @ rest_ops, w4))"

text \<open>The body of the loop \<open>for page_info in pages_to_process\<close>.\<close>

definition render_page ::
  "TranslatorConfig \<Rightarrow> string option \<Rightarrow> (int \<Rightarrow> bool) \<Rightarrow> world \<Rightarrow> PageInfo \<Rightarrow> ref list
   \<Rightarrow> error + out_page \<times> world" where
  "render_page config unicode_font has_page w page_info text_blocks =
     (let page_num = page_number page_info;
          separator_width = 10;
          new_width = fl (fl (width page_info * 2) + separator_width);
          new_height = height page_info
      in if \<not> has_page page_num then Inl IndexError
         else
           let sep_x = fl (width page_info + fl (separator_width / 2));
               head_ops =
                 [ShowPdfPage (0, 0, width page_info, height page_info) page_num,
                  DrawLine (sep_x, 0) (sep_x, height page_info),
                  InsertText (fl (fl (width page_info / 2) - 30), 15) ''Original'' 10
                    (fl (5 / 10), fl (5 / 10), fl (5 / 10)),
                  InsertText
                    (fl (fl (fl (width page_info + separator_width) + fl (width page_info / 2))
                           - 30), 15)
                    ''Translation'' 10 (fl (5 / 10), fl (5 / 10), fl (5 / 10)),
                  ShowPdfPage
                    (fl (width page_info + separator_width), 0, new_width, height page_info)
                    page_num];
               page_text_blocks =
                 sort_key (position_key w) (filter (\<lambda>b. page (blocks w b) = page_num) text_blocks);
               offset_x = fl (width page_info + separator_width);
               (block_ops, w') = draw_blocks config unicode_font offset_x page_text_blocks w
           in Inr (\<lparr>page_width = new_width, page_height = new_height, ops = head_ops @ block_ops\<rparr>,
                   w'))"

fun render_pages ::
  "TranslatorConfig \<Rightarrow> string option \<Rightarrow> (int \<Rightarrow> bool) \<Rightarrow> ref list \<Rightarrow> PageInfo list \<Rightarrow> world
   \<Rightarrow> error + document \<times> world" where
  "render_pages config unicode_font has_page text_blocks [] w = Inr ([], w)"
| "render_pages config unicode_font has_page text_blocks (page_info # pages_to_process) w =
     (case render_page config unicode_font has_page w page_info text_blocks of
        Inl e \<Rightarrow> Inl e
      | Inr (new_page, w1) \<Rightarrow>
          (case render_pages config unicode_font has_page text_blocks pages_to_process w1 of
             Inl e \<Rightarrow> Inl e
           | Inr (doc, w2) \<Rightarrow> Inr (new_page # doc, w2)))"

text \<open>
  Files. A batch file is \<open>output_dir / translated_pages_{a:03d}-{b:03d}.pdf\<close>, written
  \<open>BatchFile output_dir a b\<close>; any other file is named by its path. \<open>files\<close> is the
  file system: the documents saved so far.
\<close>

datatype path = BatchFile string int int | NamedFile string

type_synonym files = "path \<rightharpoonup> document"

text \<open>
  \<open>doc.save(path)\<close>, with or without the compression options: the library refuses a
  document with no page (\<open>ValueError\<close>, cannot save with zero pages) and writes any other.
  The directory of the path can always be made and written to.
\<close>

definition save :: "files \<Rightarrow> path \<Rightarrow> document \<Rightarrow> error + files" where
  "save fs output_path doc = (if doc = [] then Inl ValueError else Inr (fs(output_path \<mapsto> doc)))"

text \<open>
  \<open>create_side_by_side_pdf\<close>: the pages are composed in memory and the document is saved
  at the end; when a page or the save raises, nothing is written.
\<close>

definition create_side_by_side_pdf ::
  "TranslatorConfig \<Rightarrow> string option \<Rightarrow> (int \<Rightarrow> bool) \<Rightarrow> world \<Rightarrow> files \<Rightarrow> PageInfo list
   \<Rightarrow> ref list \<Rightarrow> path \<Rightarrow> (int \<times> int) option \<Rightarrow> error + files \<times> world" where
  "create_side_by_side_pdf config unicode_font has_page w fs pages text_blocks output_path
     page_range =
     (let pages_to_process =
            (case page_range of
               Some (start_page, end_page) \<Rightarrow>
                 filter (\<lambda>p. start_page \<le> page_number p \<and> page_number p < end_page) pages
             | None \<Rightarrow> pages)
      in case render_pages config unicode_font has_page text_blocks pages_to_process w of
           Inl e \<Rightarrow> Inl e
         | Inr (doc, w') \<Rightarrow>
             (case save fs output_path doc of
                Inl e \<Rightarrow> Inl e
              | Inr fs' \<Rightarrow> Inr (fs', w')))"

text \<open>
  The loop \<open>for batch_idx in range(num_batches)\<close> of \<open>process_large_pdf_in_batches\<close>: a
  batch that raises is skipped.
\<close>

fun batch_loop ::
  "TranslatorConfig \<Rightarrow> string option \<Rightarrow> (int \<Rightarrow> bool) \<Rightarrow> PageInfo list \<Rightarrow> ref list \<Rightarrow> string
   \<Rightarrow> int \<Rightarrow> nat list \<Rightarrow> path list \<Rightarrow> files \<Rightarrow> world \<Rightarrow> path list \<times> files \<times> world" where
  "batch_loop config unicode_font has_page pages text_blocks output_dir pages_per_batch []
     output_files fs w = (output_files, fs, w)"
| "batch_loop config unicode_font has_page pages text_blocks output_dir pages_per_batch
     (batch_idx # idxs) output_files fs w =
     (let total_pages = int (length pages);
          start_page = int batch_idx * pages_per_batch;
          end_page = min (start_page + pages_per_batch) total_pages;
          output_path = BatchFile output_dir (start_page + 1) end_page
      in case create_side_by_side_pdf config unicode_font has_page w fs pages text_blocks
                output_path (Some (start_page, end_page)) of
           Inr (fs', w') \<Rightarrow>
             batch_loop config unicode_font has_page pages text_blocks output_dir pages_per_batch
               idxs (output_files @ [output_path]) fs' w'
         | Inl e \<Rightarrow>
             batch_loop config unicode_font has_page pages text_blocks output_dir pages_per_batch
               idxs output_files fs w)"

definition process_large_pdf_in_batches ::
  "TranslatorConfig \<Rightarrow> string option \<Rightarrow> (int \<Rightarrow> bool) \<Rightarrow> world \<Rightarrow> files \<Rightarrow> PageInfo list
   \<Rightarrow> ref list \<Rightarrow> string \<Rightarrow> int \<Rightarrow> error + path list \<times> files \<times> world" where
  "process_large_pdf_in_batches config unicode_font has_page w fs pages text_blocks output_dir
     pages_per_batch =
     (let total_pages = int (length pages)
      in if pages_per_batch = 0 then Inl ZeroDivisionError
         else
           let num_batches = (total_pages + pages_per_batch - 1) div pages_per_batch
           in Inr (batch_loop config unicode_font has_page pages text_blocks output_dir
                     pages_per_batch [0 ..< nat num_batches] [] fs w))"

text \<open>
  \<open>merge_batch_pdfs\<close>. The loop appends the pages of every batch file that opens and
  skips the others. The merged document is then saved and closed, and the last line of
  the source asks the closed document for its length, which raises \<open>ValueError\<close>: the
  function never returns normally. Its outcome is the exception together with the file
  system, in which the merged file is written unless the save itself raised.
\<close>

fun merge_loop :: "files \<Rightarrow> path list \<Rightarrow> document \<Rightarrow> document" where
  "merge_loop fs [] final_doc = final_doc"
| "merge_loop fs (pdf_file # batch_files) final_doc =
     (case fs pdf_file of
        Some doc \<Rightarrow> merge_loop fs batch_files (final_doc @ doc)
      | None \<Rightarrow> merge_loop fs batch_files final_doc)"

definition merge_batch_pdfs :: "files \<Rightarrow> path list \<Rightarrow> path \<Rightarrow> error \<times> files" where
  "merge_batch_pdfs fs batch_files final_output_path =
     (let final_doc = merge_loop fs batch_files []
      in case save fs final_output_path final_doc of
           Inl e \<Rightarrow> (e, fs)
         | Inr fs' \<Rightarrow> (ValueError, fs'))"

text \<open>
  The extractor (extractor.py, \<open>get_page_info\<close> and the page list of \<open>extract_all\<close>): a
  document is the list of its pages' width, height and rotation.
\<close>

definition get_page_info :: "(real \<times> real \<times> int) list \<Rightarrow> nat \<Rightarrow> PageInfo" where
  "get_page_info doc page_num =
     (case doc ! page_num of
        (w, h, r) \<Rightarrow> \<lparr>page_number = int page_num, width = w, height = h, rotation = r\<rparr>)"

definition extract_pages :: "(real \<times> real \<times> int) list \<Rightarrow> PageInfo list" where
  "extract_pages doc = map (get_page_info doc) [0 ..< length doc]"

section \<open>Notions used in the statements and proofs\<close>

definition is_word :: "string \<Rightarrow> bool" where
  "is_word w = (w \<noteq> [] \<and> (\<forall>c \<in> set w. \<not> isspace c))"

definition close_line :: "string list \<times> string list \<Rightarrow> string list" where
  "close_line p = (if snd p \<noteq> [] then fst p @ [join_space (snd p)] else fst p)"

text \<open>
  The block store with every \<open>translated_text\<close> erased, and the relation between two
  states that differ at most in \<open>translated_text\<close> fields, the cache and the call count.
\<close>

definition untranslated :: "world \<Rightarrow> ref \<Rightarrow> TextBlock" where
  "untranslated w = (\<lambda>r. (blocks w r)\<lparr>translated_text := ''''\<rparr>)"

definition same_layout :: "world \<Rightarrow> world \<Rightarrow> bool" where
  "same_layout w w' =
     (untranslated w' = untranslated w \<and> bboxes w' = bboxes w
      \<and> next_block w' = next_block w \<and> next_bbox w' = next_bbox w)"

text \<open>The blocks of a batch whose text is not whitespace-only, and one step of the page loop.\<close>

definition nonws :: "world \<Rightarrow> ref list \<Rightarrow> ref list" where
  "nonws w batch = filter (\<lambda>b. strip (text_str (blocks w b)) \<noteq> []) batch"

definition batch_step ::
  "client \<Rightarrow> string \<Rightarrow> string \<Rightarrow> ref list \<Rightarrow> nat \<Rightarrow> world \<Rightarrow> nat \<Rightarrow> world" where
  "batch_step client s t sorted_blocks n w k =
     snd (translate_batch_with_context client w (take n (drop (k * n) sorted_blocks)) s t
            (build_context w sorted_blocks (k * n) n))"

text \<open>What merging reads from a file, the pages of batch \<open>k\<close> and the name of its file.\<close>

definition file_pages :: "files \<Rightarrow> path \<Rightarrow> document" where
  "file_pages fs p = (case fs p of None \<Rightarrow> [] | Some d \<Rightarrow> d)"

definition page_slice :: "PageInfo list \<Rightarrow> int \<Rightarrow> nat \<Rightarrow> PageInfo list" where
  "page_slice pages ppb k =
     filter (\<lambda>p. int k * ppb \<le> page_number p
               \<and> page_number p < min (int k * ppb + ppb) (int (length pages))) pages"

definition batch_path :: "string \<Rightarrow> PageInfo list \<Rightarrow> int \<Rightarrow> nat \<Rightarrow> path" where
  "batch_path output_dir pages ppb k =
     BatchFile output_dir (int k * ppb + 1) (min (int k * ppb + ppb) (int (length pages)))"

text \<open>Every object allocated in \<open>w\<close> is the same in \<open>w'\<close>.\<close>

definition keeps_allocated :: "world \<Rightarrow> world \<Rightarrow> bool" where
  "keeps_allocated w w' =
     (next_block w \<le> next_block w' \<and> next_bbox w \<le> next_bbox w'
      \<and> (\<forall>r. r < next_block w \<longrightarrow> blocks w' r = blocks w r)
      \<and> (\<forall>a. a < next_bbox w \<longrightarrow> bboxes w' a = bboxes w a)
      \<and> translation_cache w' = translation_cache w \<and> calls w' = calls w)"

section \<open>A small example\<close>

text \<open>
  Three fragments at \<open>y0\<close> = 100, 50 and 150 (addresses 0, 2 and 4), whitespace-only
  fragments at the other addresses, a three-page document, and four translation services.
\<close>

definition example_world :: world where
  "example_world =
     \<lparr>blocks = (\<lambda>r. \<lparr>text_str = (if r = 0 then ''Hello'' else if r = 2 then ''Title''
                                  else if r = 4 then ''World'' else ''  ''),
                      bbox = r, font = ''Helvetica'', size_pt = 12, color = (0, 0, 0),
                      page = 0, translated_text = ''''\<rparr>),
      bboxes = (\<lambda>a. \<lparr>x0 = 10, y0 = (if a = 0 then 100 else if a = 2 then 50 else 150),
                      x1 = 200, y1 = (if a = 0 then 112 else if a = 2 then 62 else 162)\<rparr>),
      next_block = 6, next_bbox = 6, translation_cache = Map.empty, calls = 0\<rparr>"

definition failing_client :: client where
  "failing_client = (\<lambda>n r. None)"


definition batch_client :: client where
  "batch_client = (\<lambda>n r. Some ''1. Titulo --- 2. Hola --- 3. Mundo'')"


definition example_doc :: "(real \<times> real \<times> int) list" where
  "example_doc = [(612, 792, 0), (612, 792, 0), (595, 842, 0)]"

definition example_has_page :: "int \<Rightarrow> bool" where
  "example_has_page i = (0 \<le> i \<and> i < 3)"

section \<open>Properties of the string functions\<close>

lemma split_ws_words:
  "(\<forall>c \<in> set cur. \<not> isspace c) \<Longrightarrow> w \<in> set (split_ws cur s) \<Longrightarrow> is_word w"
proof (induction s arbitrary: cur)
  case Nil
  then show ?case by (auto simp: is_word_def split: if_splits)
next
  case (Cons c s)
  show ?case
  proof (cases "isspace c")
    case True
    with Cons.prems have "w = cur \<and> cur \<noteq> [] \<or> w \<in> set (split_ws [] s)"
      by (auto split: if_splits)
    then show ?thesis
      using Cons.prems(1) Cons.IH [of "[]"] by (auto simp: is_word_def)
  next
    case False
    with Cons.prems have "w \<in> set (split_ws (cur @ [c]) s)" by simp
    then show ?thesis
      using Cons.IH [of "cur @ [c]"] Cons.prems(1) False by auto
  qed
qed

lemma str_split_words: "\<forall>w \<in> set (str_split s). is_word w"
  using split_ws_words [of "[]" _ s] by (simp add: str_split_def)

lemma split_ws_nonspace:
  "(\<forall>c \<in> set w. \<not> isspace c) \<Longrightarrow> split_ws cur (w @ rest) = split_ws (cur @ w) rest"
  by (induction w arbitrary: cur) auto

lemma split_ws_join:
  "\<forall>w \<in> set ws. is_word w \<Longrightarrow> split_ws [] (join_space ws) = ws"
proof (induction ws rule: join_space.induct)
  case 1
  then show ?case by simp
next
  case (2 w)
  then show ?case using split_ws_nonspace [of w "[]" "[]"] by (simp add: is_word_def)
next
  case (3 w v ws)
  then have w: "\<forall>c \<in> set w. \<not> isspace c" "w \<noteq> []" by (simp_all add: is_word_def)
  have "split_ws [] (join_space (w # v # ws)) = split_ws w (CHR '' '' # join_space (v # ws))"
    using split_ws_nonspace [OF w(1), of "[]"] by simp
  also have "\<dots> = w # split_ws [] (join_space (v # ws))"
    using w(2) by (simp add: isspace_def)
  finally show ?case using 3 by simp
qed

lemma str_split_join: "\<forall>w \<in> set ws. is_word w \<Longrightarrow> str_split (join_space ws) = ws"
  by (simp add: str_split_def split_ws_join)

lemma str_split_word: "is_word w \<Longrightarrow> str_split w = [w]"
  using str_split_join [of "[w]"] by simp

lemma dropWhile_all_iff: "(\<forall>x \<in> set (dropWhile P xs). P x) \<longleftrightarrow> dropWhile P xs = []"
proof
  assume a: "\<forall>x \<in> set (dropWhile P xs). P x"
  show "dropWhile P xs = []"
  proof (rule ccontr)
    assume n: "dropWhile P xs \<noteq> []"
    then have "\<not> P (hd (dropWhile P xs))" by (rule hd_dropWhile)
    moreover have "hd (dropWhile P xs) \<in> set (dropWhile P xs)" using n by simp
    ultimately show False using a by blast
  qed
next
  assume e: "dropWhile P xs = []"
  show "\<forall>x \<in> set (dropWhile P xs). P x" unfolding e by simp
qed

lemma strip_empty_iff: "strip s = [] \<longleftrightarrow> (\<forall>c \<in> set s. isspace c)"
  by (simp add: strip_def dropWhile_eq_Nil_conv dropWhile_all_iff)

lemma split_ws_all_space: "\<forall>c \<in> set s. isspace c \<Longrightarrow> split_ws [] s = []"
  by (induction s) auto

lemma split_ws_nonempty: "cur \<noteq> [] \<Longrightarrow> split_ws cur s \<noteq> []"
  by (induction s arbitrary: cur) auto

lemma split_ws_some_nonspace: "\<exists>c \<in> set s. \<not> isspace c \<Longrightarrow> split_ws [] s \<noteq> []"
proof (induction s)
  case Nil
  then show ?case by simp
next
  case (Cons c s)
  then show ?case by (cases "isspace c") (auto simp: split_ws_nonempty)
qed

lemma str_split_empty_iff: "str_split s = [] \<longleftrightarrow> strip s = []"
  unfolding str_split_def strip_empty_iff
  using split_ws_all_space split_ws_some_nonspace by blast

lemma wrap_text_loop_words:
  "\<forall>w \<in> set words. is_word w \<Longrightarrow> \<forall>w \<in> set cur. is_word w \<Longrightarrow>
   concat (map str_split (close_line (wrap_text_loop fs mw words lines cur))) =
   concat (map str_split lines) @ cur @ words"
proof (induction words arbitrary: lines cur)
  case Nil
  then show ?case by (simp add: close_line_def str_split_join)
next
  case (Cons w words)
  then show ?case by (simp add: Let_def str_split_join str_split_word)
qed

lemma split_text_to_fit_loop_words:
  "\<forall>w \<in> set words. is_word w \<Longrightarrow> \<forall>w \<in> set cur. is_word w \<Longrightarrow>
   concat (map str_split (close_line (split_text_to_fit_loop mw fs acw words lines cur))) =
   concat (map str_split lines) @ cur @ words"
proof (induction words arbitrary: lines cur)
  case Nil
  then show ?case by (simp add: close_line_def str_split_join)
next
  case (Cons w words)
  then show ?case by (simp add: Let_def str_split_join str_split_word)
qed

lemma wrap_text_words: "concat (map str_split (wrap_text text fs mw)) = str_split text"
proof (cases "strip text = []")
  case True
  then have "str_split text = []" by (simp add: str_split_empty_iff)
  with True show ?thesis by (simp add: wrap_text_def)
next
  case False
  obtain lines cur where l: "wrap_text_loop fs mw (str_split text) [] [] = (lines, cur)"
    by (cases "wrap_text_loop fs mw (str_split text) [] []")
  have c: "concat (map str_split (close_line (lines, cur))) = str_split text"
    using wrap_text_loop_words [of "str_split text" "[]" fs mw "[]"] str_split_words [of "text"] l
    by simp
  have ne: "close_line (lines, cur) \<noteq> []"
  proof
    assume "close_line (lines, cur) = []"
    with c have "str_split text = []" by simp
    with False show False by (simp add: str_split_empty_iff)
  qed
  have "wrap_text text fs mw = close_line (lines, cur)"
    using False l ne by (auto simp: wrap_text_def close_line_def Let_def split: if_splits)
  with c show ?thesis by simp
qed

lemma split_text_to_fit_words: "concat (map str_split (split_text_to_fit text mw fs acw)) = str_split text"
proof -
  obtain lines cur where l: "split_text_to_fit_loop mw fs acw (str_split text) [] [] = (lines, cur)"
    by (cases "split_text_to_fit_loop mw fs acw (str_split text) [] []")
  have c: "concat (map str_split (close_line (lines, cur))) = str_split text"
    using split_text_to_fit_loop_words [where words = "str_split text" and cur = "[]" and lines = "[]" and mw = mw and fs = fs and acw = acw]
      str_split_words [of "text"] l
    by simp
  have "split_text_to_fit text mw fs acw = close_line (lines, cur)"
    using l by (auto simp: split_text_to_fit_def close_line_def Let_def)
  with c show ?thesis by simp
qed

section \<open>Batch-reply parsing: claims\<close>

lemma clean_parts_acc:
  "clean_parts ps acc = acc @ map remove_numbering (filter (\<lambda>s. s \<noteq> []) (map strip ps))"
  by (induction ps arbitrary: acc) (auto simp: Let_def)

lemma pad_translations_eq: "pad_translations n ts = ts @ replicate (n - length ts) ''''"
proof (induction n ts rule: pad_translations.induct)
  case (1 n ts)
  show ?case
  proof (cases "length ts < n")
    case True
    then have "n - length ts = Suc (n - Suc (length ts))" by simp
    with 1 True show ?thesis
      by (subst pad_translations.simps) (simp add: replicate_append_same)
  next
    case False
    then show ?thesis by (subst pad_translations.simps) simp
  qed
qed

lemma parse_batch_response_eq:
  "parse_batch_response r n =
     take n (clean_parts (split_delim [] r) [])
       @ replicate (n - length (clean_parts (split_delim [] r) [])) ''''"
  by (simp add: parse_batch_response_def pad_translations_eq Let_def)

lemma length_parse_batch_response: "length (parse_batch_response r n) = n"
  by (simp add: parse_batch_response_eq)

text \<open>
  C2, as stated, fails: the reply \<open>a------b\<close> has the three segments \<open>a\<close>, the empty
  string and \<open>b\<close>, and the parser returns \<open>a\<close>, \<open>b\<close> and a padding string: the empty
  segment is dropped by the test \<open>if cleaned\<close>, and the second entry is the third segment.
\<close>

theorem parse_batch_response_position_counterexample:
  "parse_batch_response ''a------b'' 3 = [''a'', ''b'', '''']
   \<and> map strip (split_delim [] ''a------b'') = [''a'', '''', ''b'']"
  by code_simp

text \<open>
  C2, amended: a segment that is empty after trimming is dropped, and the i-th returned
  entry comes from the i-th of the segments that are not empty after trimming (for i below
  the expected count and the number of such segments). The entry is that trimmed segment
  itself, unless its first two characters are one of \<open>1.\<close>, ..., \<open>9.\<close>: then it is the
  segment without these two characters, trimmed again. So \<open>1. uno\<close> gives \<open>uno\<close>, while
  \<open>10. diez\<close> is returned whole and \<open>1.5 liters\<close> gives \<open>5 liters\<close>.
\<close>

theorem parse_batch_response_nonempty_segments:
  assumes "i < n"
    and "i < length (filter (\<lambda>s. s \<noteq> []) (map strip (split_delim [] r)))"
  shows "parse_batch_response r n ! i =
         (let cleaned = filter (\<lambda>s. s \<noteq> []) (map strip (split_delim [] r)) ! i
          in if take 2 cleaned
                  \<in> set [''1.'', ''2.'', ''3.'', ''4.'', ''5.'', ''6.'', ''7.'', ''8.'', ''9.'']
             then strip (drop 2 cleaned) else cleaned)"
  using assms
  by (simp add: parse_batch_response_eq clean_parts_acc nth_append remove_numbering_def
      starts_with_ordinal_def Let_def)

text \<open>
  Witness for C2: the second entry of a reply with a blank segment, and a reply whose
  segments begin with \<open>10.\<close> and \<open>1.5\<close>.
\<close>

theorem parse_batch_response_nonempty_segments_witness:
  "(1::nat) < 3
   \<and> 1 < length (filter (\<lambda>s. s \<noteq> []) (map strip (split_delim [] ''1. a--- ---2. b'')))
   \<and> parse_batch_response ''1. a--- ---2. b'' 3 ! 1 = ''b''
   \<and> (0::nat) < 2
   \<and> 1 < length (filter (\<lambda>s. s \<noteq> []) (map strip (split_delim [] ''10. diez---1.5 liters'')))
   \<and> parse_batch_response ''10. diez---1.5 liters'' 2 ! 0 = ''10. diez''
   \<and> parse_batch_response ''10. diez---1.5 liters'' 2 ! 1 = ''5 liters''"
proof -
  have h: "1 < length (filter (\<lambda>s. s \<noteq> []) (map strip (split_delim [] ''1. a--- ---2. b'')))"
    by code_simp
  have e: "(let cleaned = filter (\<lambda>s. s \<noteq> []) (map strip (split_delim [] ''1. a--- ---2. b'')) ! 1
          in if take 2 cleaned
                  \<in> set [''1.'', ''2.'', ''3.'', ''4.'', ''5.'', ''6.'', ''7.'', ''8.'', ''9.'']
             then strip (drop 2 cleaned) else cleaned) = ''b''"
    by code_simp
  have h': "1 < length (filter (\<lambda>s. s \<noteq> []) (map strip (split_delim [] ''10. diez---1.5 liters'')))"
    by code_simp
  have h0: "0 < length (filter (\<lambda>s. s \<noteq> []) (map strip (split_delim [] ''10. diez---1.5 liters'')))"
    by code_simp
  have e0: "(let cleaned = filter (\<lambda>s. s \<noteq> []) (map strip (split_delim [] ''10. diez---1.5 liters'')) ! 0
          in if take 2 cleaned
                  \<in> set [''1.'', ''2.'', ''3.'', ''4.'', ''5.'', ''6.'', ''7.'', ''8.'', ''9.'']
             then strip (drop 2 cleaned) else cleaned) = ''10. diez''"
    by code_simp
  have e1: "(let cleaned = filter (\<lambda>s. s \<noteq> []) (map strip (split_delim [] ''10. diez---1.5 liters'')) ! 1
          in if take 2 cleaned
                  \<in> set [''1.'', ''2.'', ''3.'', ''4.'', ''5.'', ''6.'', ''7.'', ''8.'', ''9.'']
             then strip (drop 2 cleaned) else cleaned) = ''5 liters''"
    by code_simp
  have a: "(1::nat) < 3" and b: "(0::nat) < 2" and c: "(1::nat) < 2" by simp_all
  have 1: "parse_batch_response ''1. a--- ---2. b'' 3 ! 1 = ''b''"
    using parse_batch_response_nonempty_segments [OF a h] e by (simp only:)
  have 2: "parse_batch_response ''10. diez---1.5 liters'' 2 ! 0 = ''10. diez''"
    using parse_batch_response_nonempty_segments [OF b h0] e0 by (simp only:)
  have 3: "parse_batch_response ''10. diez---1.5 liters'' 2 ! 1 = ''5 liters''"
    using parse_batch_response_nonempty_segments [OF c h'] e1 by (simp only:)
  from a h 1 b h' 2 3 show ?thesis by blast
qed

text \<open>
  C3: for every reply and every expected count, the parser returns exactly that many
  entries: the cleaned segments, cut after the expected count, followed by empty strings
  when there are fewer. The function is total: no step of it can raise.
\<close>

theorem parse_batch_response_length:
  "length (parse_batch_response r n) = n
   \<and> parse_batch_response r n =
       take n (clean_parts (split_delim [] r) [])
         @ replicate (n - length (clean_parts (split_delim [] r) [])) ''''"
  using parse_batch_response_eq [of r n] by (simp add: length_parse_batch_response)

section \<open>Floating point: the literals of the source\<close>

text \<open>
  \<open>fl\<close> on the decimal literals of the fitting code gives the doubles Python reads them
  as; an integer that fits the significand is its own double; and \<open>19 * 1.0 * 0.55\<close> is
  \<open>10.450000000000001\<close>, one unit in the last place above \<open>11.0 * 0.95\<close>.
\<close>

lemma fl_literals:
  "fl (55 / 100) = 2476979795053773 / 4503599627370496
   \<and> fl (95 / 100) = 4278419646001971 / 4503599627370496
   \<and> fl (90 / 100) = 8106479329266893 / 9007199254740992
   \<and> fl (12 / 10) = 5404319552844595 / 4503599627370496
   \<and> fl (8 / 10) = 3602879701896397 / 4503599627370496
   \<and> fl (75 / 100) = 75 / 100
   \<and> fl 19 = 19 \<and> fl (- 30) = - 30"
  by code_simp

lemma fl_products:
  "fl (fl (fl 19 * 1) * fl (55 / 100)) = 5882827013252711 / 562949953421312
   \<and> fl (fl (11 - 0) * fl (95 / 100)) = 2941413506626355 / 281474976710656
   \<and> fl (fl (11 - 0) * fl (95 / 100)) < fl (fl (fl 19 * 1) * fl (55 / 100))"
  by code_simp

section \<open>Font fitting: claims\<close>

lemma calculate_font_size_scaled:
  assumes "strip text \<noteq> []" "\<not> text_fits text box original_size"
  shows "calculate_font_size config text box original_size =
           max (fl (original_size
                      * max (fit_scale text box original_size) (max_font_reduction config)))
               (min_font_size config)"
proof -
  have a: "\<not> (fl (fl (fl (real (length text)) * original_size) * fl (55 / 100))
        \<le> fl (bbox_width box * fl (95 / 100))
      \<and> fl (original_size * fl (12 / 10)) \<le> fl (bbox_height box * fl (90 / 100)))"
    using assms(2) unfolding text_fits_def .
  show ?thesis
    unfolding calculate_font_size_def fit_scale_def Let_def
    using assms(1) a by (simp only: if_False)
qed

lemma calculate_font_size_unchanged:
  "strip text = [] \<or> text_fits text box original_size \<Longrightarrow>
   calculate_font_size config text box original_size = original_size"
  unfolding calculate_font_size_def text_fits_def Let_def by presburger

text \<open>
  C4, as stated, fails: a text that fits its box keeps its original size, also when that
  size is below \<open>min_font_size\<close>. The one-letter text in a 100 by 100 box at size 4 is
  returned at size 4, under the default floor of 6.
\<close>

theorem calculate_font_size_floor_counterexample:
  "calculate_font_size default_config ''a'' \<lparr>x0 = 0, y0 = 0, x1 = 100, y1 = 100\<rparr> 4 = 4
   \<and> min_font_size default_config = 6"
  by code_simp

text \<open>
  C4, amended. The fit test is the source's, on doubles: \<open>text_fits\<close>. A whitespace-only
  text and a text that passes the test keep the original size, whatever \<open>min_font_size\<close>
  is. For a text that is not whitespace-only and fails the test, the computed size is at
  least \<open>min_font_size\<close>; and whenever the scale asked for by the width and height fit is
  below \<open>max_font_reduction\<close>, it is at least the double product
  \<open>original_size * max_font_reduction\<close>: it is the larger of that product and
  \<open>min_font_size\<close>.
\<close>

theorem calculate_font_size_floor:
  "(strip text = [] \<or> text_fits text box original_size
      \<longrightarrow> calculate_font_size config text box original_size = original_size)
   \<and> (strip text \<noteq> [] \<and> \<not> text_fits text box original_size
      \<longrightarrow> min_font_size config \<le> calculate_font_size config text box original_size
          \<and> (fit_scale text box original_size < max_font_reduction config \<longrightarrow>
                fl (original_size * max_font_reduction config)
                  \<le> calculate_font_size config text box original_size
                \<and> calculate_font_size config text box original_size
                    = max (fl (original_size * max_font_reduction config))
                          (min_font_size config)))"
proof -
  have a: "strip text = [] \<or> text_fits text box original_size
      \<longrightarrow> calculate_font_size config text box original_size = original_size"
    using calculate_font_size_unchanged [of "text" box original_size config] by blast
  have b: "strip text \<noteq> [] \<and> \<not> text_fits text box original_size
      \<longrightarrow> min_font_size config \<le> calculate_font_size config text box original_size
          \<and> (fit_scale text box original_size < max_font_reduction config \<longrightarrow>
                fl (original_size * max_font_reduction config)
                  \<le> calculate_font_size config text box original_size
                \<and> calculate_font_size config text box original_size
                    = max (fl (original_size * max_font_reduction config))
                          (min_font_size config))"
  proof
    assume h: "strip text \<noteq> [] \<and> \<not> text_fits text box original_size"
    then have "calculate_font_size config text box original_size =
           max (fl (original_size
                      * max (fit_scale text box original_size) (max_font_reduction config)))
               (min_font_size config)"
      by (simp add: calculate_font_size_scaled)
    then show "min_font_size config \<le> calculate_font_size config text box original_size
          \<and> (fit_scale text box original_size < max_font_reduction config \<longrightarrow>
                fl (original_size * max_font_reduction config)
                  \<le> calculate_font_size config text box original_size
                \<and> calculate_font_size config text box original_size
                    = max (fl (original_size * max_font_reduction config))
                          (min_font_size config))"
      by (simp add: max_def)
  qed
  from a b show ?thesis by blast
qed

text \<open>
  Witness for C4. A one-letter text in a large box keeps its size. Three letters at size 5
  in a box whose available width rounds up to the estimated width 8.25 pass the test and
  keep size 5, under the floor of 6. Nineteen characters at size 1 in a box of width 11
  fail the test by one unit in the last place and are set at the floor of 6. A long
  translation in a 40 by 12 box at size 12 is set at the double \<open>12 * 0.8\<close>.
\<close>

theorem calculate_font_size_floor_witness:
  "text_fits ''a'' \<lparr>x0 = 0, y0 = 0, x1 = 100, y1 = 100\<rparr> 12
   \<and> calculate_font_size default_config ''a'' \<lparr>x0 = 0, y0 = 0, x1 = 100, y1 = 100\<rparr> 12 = 12
   \<and> text_fits ''abc''
        \<lparr>x0 = 0, y0 = 0, x1 = 4888775911290341 / 562949953421312, y1 = 100\<rparr> 5
   \<and> calculate_font_size default_config ''abc''
        \<lparr>x0 = 0, y0 = 0, x1 = 4888775911290341 / 562949953421312, y1 = 100\<rparr> 5 = 5
   \<and> strip ''nineteen characters'' \<noteq> []
   \<and> \<not> text_fits ''nineteen characters'' \<lparr>x0 = 0, y0 = 0, x1 = 11, y1 = 10\<rparr> 1
   \<and> min_font_size default_config
        \<le> calculate_font_size default_config ''nineteen characters''
             \<lparr>x0 = 0, y0 = 0, x1 = 11, y1 = 10\<rparr> 1
   \<and> calculate_font_size default_config ''nineteen characters''
        \<lparr>x0 = 0, y0 = 0, x1 = 11, y1 = 10\<rparr> 1 = 6
   \<and> strip ''a translation that is far too long for its box'' \<noteq> []
   \<and> \<not> text_fits ''a translation that is far too long for its box''
         \<lparr>x0 = 0, y0 = 0, x1 = 40, y1 = 12\<rparr> 12
   \<and> fit_scale ''a translation that is far too long for its box''
         \<lparr>x0 = 0, y0 = 0, x1 = 40, y1 = 12\<rparr> 12 < max_font_reduction default_config
   \<and> min_font_size default_config
        \<le> calculate_font_size default_config ''a translation that is far too long for its box''
             \<lparr>x0 = 0, y0 = 0, x1 = 40, y1 = 12\<rparr> 12
   \<and> fl (12 * max_font_reduction default_config)
        \<le> calculate_font_size default_config ''a translation that is far too long for its box''
             \<lparr>x0 = 0, y0 = 0, x1 = 40, y1 = 12\<rparr> 12
   \<and> calculate_font_size default_config ''a translation that is far too long for its box''
        \<lparr>x0 = 0, y0 = 0, x1 = 40, y1 = 12\<rparr> 12 = 1351079888211149 / 140737488355328"
proof -
  have h0: "text_fits ''a'' \<lparr>x0 = 0, y0 = 0, x1 = 100, y1 = 100\<rparr> 12"
    by code_simp
  have g0: "text_fits ''abc''
        \<lparr>x0 = 0, y0 = 0, x1 = 4888775911290341 / 562949953421312, y1 = 100\<rparr> 5"
    by code_simp
  have n1: "strip ''nineteen characters'' \<noteq> []"
    by (simp add: strip_def isspace_def)
  have n2: "\<not> text_fits ''nineteen characters'' \<lparr>x0 = 0, y0 = 0, x1 = 11, y1 = 10\<rparr> 1"
    by code_simp
  have n3: "calculate_font_size default_config ''nineteen characters''
        \<lparr>x0 = 0, y0 = 0, x1 = 11, y1 = 10\<rparr> 1 = 6"
    by code_simp
  have h1: "strip ''a translation that is far too long for its box'' \<noteq> []"
    by (simp add: strip_def isspace_def)
  have h2: "\<not> text_fits ''a translation that is far too long for its box''
         \<lparr>x0 = 0, y0 = 0, x1 = 40, y1 = 12\<rparr> 12"
    by code_simp
  have h3: "fit_scale ''a translation that is far too long for its box''
         \<lparr>x0 = 0, y0 = 0, x1 = 40, y1 = 12\<rparr> 12 < max_font_reduction default_config"
    by code_simp
  have h4: "calculate_font_size default_config ''a translation that is far too long for its box''
        \<lparr>x0 = 0, y0 = 0, x1 = 40, y1 = 12\<rparr> 12 = 1351079888211149 / 140737488355328"
    by code_simp
  from calculate_font_size_floor [of "''a''" "\<lparr>x0 = 0, y0 = 0, x1 = 100, y1 = 100\<rparr>" 12
      default_config]
    calculate_font_size_floor [of "''abc''"
      "\<lparr>x0 = 0, y0 = 0, x1 = 4888775911290341 / 562949953421312, y1 = 100\<rparr>" 5 default_config]
    calculate_font_size_floor [of "''nineteen characters''"
      "\<lparr>x0 = 0, y0 = 0, x1 = 11, y1 = 10\<rparr>" 1 default_config]
    calculate_font_size_floor [of "''a translation that is far too long for its box''"
      "\<lparr>x0 = 0, y0 = 0, x1 = 40, y1 = 12\<rparr>" 12 default_config]
    h0 g0 n1 n2 n3 h1 h2 h3 h4
  show ?thesis by blast
qed

section \<open>Word wrapping: claims\<close>

text \<open>
  C10: both wrapping functions keep the words of the input: the words of the output
  lines, read line after line, are the words of the input, in order, each one whole. The
  output has no line exactly when the input has no word.
\<close>

theorem wrap_keeps_words:
  "concat (map str_split (wrap_text text font_size max_width)) = str_split text
   \<and> concat (map str_split (split_text_to_fit text max_width font_size avg_char_width))
       = str_split text
   \<and> ((wrap_text text font_size max_width = []) = (str_split text = []))
   \<and> ((split_text_to_fit text max_width font_size avg_char_width = []) = (str_split text = []))"
proof -
  have w: "concat (map str_split (wrap_text text font_size max_width)) = str_split text"
    by (rule wrap_text_words)
  have s: "concat (map str_split (split_text_to_fit text max_width font_size avg_char_width))
       = str_split text"
    by (rule split_text_to_fit_words)
  have we: "(wrap_text text font_size max_width = []) = (str_split text = [])"
  proof
    assume "wrap_text text font_size max_width = []"
    with w show "str_split text = []" by simp
  next
    assume "str_split text = []"
    then show "wrap_text text font_size max_width = []"
      by (simp add: wrap_text_def str_split_empty_iff)
  qed
  have se: "(split_text_to_fit text max_width font_size avg_char_width = []) = (str_split text = [])"
  proof
    assume "split_text_to_fit text max_width font_size avg_char_width = []"
    with s show "str_split text = []" by simp
  next
    assume "str_split text = []"
    then show "split_text_to_fit text max_width font_size avg_char_width = []"
      by (simp add: split_text_to_fit_def)
  qed
  from w s we se show ?thesis by blast
qed

section \<open>The translator writes only \<open>translated_text\<close>\<close>

lemma same_layout_refl [simp]: "same_layout w w"
  by (simp add: same_layout_def)

lemma same_layout_trans [trans]: "same_layout w w1 \<Longrightarrow> same_layout w1 w2 \<Longrightarrow> same_layout w w2"
  by (simp add: same_layout_def)

lemma same_layout_text: "same_layout w w' \<Longrightarrow> text_str (blocks w' b) = text_str (blocks w b)"
proof -
  assume "same_layout w w'"
  then have "untranslated w' b = untranslated w b" by (simp add: same_layout_def)
  then have "text_str (untranslated w' b) = text_str (untranslated w b)" by simp
  then show ?thesis by (simp add: untranslated_def)
qed

lemma same_layout_page: "same_layout w w' \<Longrightarrow> page (blocks w' b) = page (blocks w b)"
proof -
  assume "same_layout w w'"
  then have "untranslated w' b = untranslated w b" by (simp add: same_layout_def)
  then have "page (untranslated w' b) = page (untranslated w b)" by simp
  then show ?thesis by (simp add: untranslated_def)
qed

lemma same_layout_bbox: "same_layout w w' \<Longrightarrow> bbox (blocks w' b) = bbox (blocks w b)"
proof -
  assume "same_layout w w'"
  then have "untranslated w' b = untranslated w b" by (simp add: same_layout_def)
  then have "bbox (untranslated w' b) = bbox (untranslated w b)" by simp
  then show ?thesis by (simp add: untranslated_def)
qed

lemma same_layout_set: "same_layout w (set_translated_text b t w)"
  by (auto simp: same_layout_def set_translated_text_def untranslated_def fun_eq_iff)

lemma same_layout_calls: "same_layout w (w\<lparr>calls := n\<rparr>)"
  by (simp add: same_layout_def untranslated_def)

lemma same_layout_cache: "same_layout w (w\<lparr>translation_cache := c\<rparr>)"
  by (simp add: same_layout_def untranslated_def)

lemma translate_text_blocks_same:
  "blocks (snd (translate_text client w text s t c)) = blocks w"
  by (simp add: translate_text_def Let_def split: option.splits)

lemma translate_text_layout: "same_layout w (snd (translate_text client w text s t c))"
  by (simp add: translate_text_def Let_def same_layout_def untranslated_def split: option.splits)

lemma translate_batch_individually_layout:
  "same_layout w (translate_batch_individually client w batch s t)"
proof (induction batch arbitrary: w)
  case Nil
  then show ?case by simp
next
  case (Cons b batch)
  obtain tx w1 where tt: "translate_text client w (text_str (blocks w b)) s t None = (tx, w1)"
    by (cases "translate_text client w (text_str (blocks w b)) s t None")
  have "same_layout w w1"
    using translate_text_layout [of w client "text_str (blocks w b)" s t None] tt by simp
  also have "same_layout w1 (set_translated_text b tx w1)" by (rule same_layout_set)
  also have "same_layout (set_translated_text b tx w1)
      (translate_batch_individually client (set_translated_text b tx w1) batch s t)"
    by (rule Cons.IH)
  finally show ?case using tt by simp
qed

lemma apply_translations_layout:
  "same_layout w (apply_translations ts s t batch k w)"
proof (induction batch arbitrary: k w)
  case Nil
  then show ?case by simp
next
  case (Cons b batch)
  let ?w1 = "set_translated_text b (text_str (blocks w b)) w"
  let ?w2 = "set_translated_text b (ts ! k) w"
  let ?w3 = "?w2\<lparr>translation_cache :=
     (translation_cache ?w2)(cache_key (text_str (blocks w b)) s t \<mapsto> ts ! k)\<rparr>"
  have 1: "same_layout w ?w1" by (rule same_layout_set)
  have "same_layout w ?w2" by (rule same_layout_set)
  also have "same_layout ?w2 ?w3" by (rule same_layout_cache)
  finally have 3: "same_layout w ?w3" .
  have a: "same_layout w (apply_translations ts s t batch k ?w1)"
    using same_layout_trans [OF 1 Cons.IH [where w = ?w1]] .
  have b: "same_layout w (apply_translations ts s t batch (k + 1) ?w3)"
    using same_layout_trans [OF 3 Cons.IH [where w = ?w3]] .
  show ?case using a b by (simp add: Let_def)
qed

lemma translate_batch_with_context_fst:
  "fst (translate_batch_with_context client w batch s t c) = batch"
  by (simp add: translate_batch_with_context_def Let_def split: option.splits)

lemma translate_batch_with_context_layout:
  "same_layout w (snd (translate_batch_with_context client w batch s t c))"
proof -
  have a: "same_layout w (translate_batch_individually client (w\<lparr>calls := calls w + 1\<rparr>) batch s t)"
    using same_layout_trans [OF same_layout_calls translate_batch_individually_layout] .
  have b: "\<And>ts. same_layout w (apply_translations ts s t batch 0 (w\<lparr>calls := calls w + 1\<rparr>))"
    using same_layout_trans [OF same_layout_calls apply_translations_layout] .
  show ?thesis
    using a b by (simp add: translate_batch_with_context_def Let_def split: option.splits)
qed

lemma nonws_layout: "same_layout w w' \<Longrightarrow> nonws w' batch = nonws w batch"
  by (simp add: nonws_def same_layout_text)

lemma nonws_calls: "nonws (w\<lparr>calls := n\<rparr>) batch = nonws w batch"
  by (simp add: nonws_def)

section \<open>Positional assignment within a batch\<close>

lemma apply_translations_other:
  "b \<notin> set batch \<Longrightarrow> blocks (apply_translations ts s t batch k w) b = blocks w b"
  by (induction batch arbitrary: k w) (auto simp: Let_def set_translated_text_def)

lemma apply_translations_assigned:
  "distinct batch \<Longrightarrow> k + length (nonws w batch) \<le> length ts \<Longrightarrow>
   map (\<lambda>b. translated_text (blocks (apply_translations ts s t batch k w) b)) (nonws w batch)
     = take (length (nonws w batch)) (drop k ts)"
proof (induction batch arbitrary: k w)
  case Nil
  then show ?case by (simp add: nonws_def)
next
  case (Cons b batch)
  let ?w1 = "set_translated_text b (text_str (blocks w b)) w"
  let ?w2 = "set_translated_text b (ts ! k) w"
  let ?w3 = "?w2\<lparr>translation_cache :=
     (translation_cache ?w2)(cache_key (text_str (blocks w b)) s t \<mapsto> ts ! k)\<rparr>"
  from Cons.prems have d: "distinct batch" and nb: "b \<notin> set batch" by simp_all
  show ?case
  proof (cases "strip (text_str (blocks w b)) = []")
    case True
    have n1: "nonws ?w1 batch = nonws w batch"
      by (rule nonws_layout) (rule same_layout_set)
    have "nonws w (b # batch) = nonws w batch" using True by (simp add: nonws_def)
    moreover have "apply_translations ts s t (b # batch) k w = apply_translations ts s t batch k ?w1"
      using True by (simp add: Let_def)
    ultimately show ?thesis
      using Cons.IH [OF d, of k ?w1] Cons.prems(2) n1 by simp
  next
    case False
    have l3: "same_layout w ?w3"
      using same_layout_trans [OF same_layout_set same_layout_cache] .
    have n3: "nonws ?w3 batch = nonws w batch" using l3 by (rule nonws_layout)
    have nw: "nonws w (b # batch) = b # nonws w batch" using False by (simp add: nonws_def)
    with Cons.prems(2) have k: "k < length ts" and k1: "(k + 1) + length (nonws ?w3 batch) \<le> length ts"
      using n3 by simp_all
    have ap: "apply_translations ts s t (b # batch) k w = apply_translations ts s t batch (k + 1) ?w3"
      using False k by (simp add: Let_def)
    have hd: "translated_text (blocks (apply_translations ts s t batch (k + 1) ?w3) b) = ts ! k"
      using apply_translations_other [OF nb] by (simp add: set_translated_text_def)
    have "map (\<lambda>b. translated_text (blocks (apply_translations ts s t batch (k + 1) ?w3) b))
            (nonws w batch) = take (length (nonws w batch)) (drop (k + 1) ts)"
      using Cons.IH [OF d k1] n3 by simp
    with hd ap nw k show ?thesis
      by (simp add: take_Suc_conv_app_nth Cons_nth_drop_Suc [symmetric] del: drop_Suc_Cons)
  qed
qed

lemma translate_batch_assigns:
  assumes "distinct batch"
    and "client (calls w) (BatchRequest (batch_texts w batch) s t c) = Some content"
  shows "map (\<lambda>b. translated_text (blocks (snd (translate_batch_with_context client w batch s t c)) b))
           (nonws w batch)
         = parse_batch_response (strip content) (length (nonws w batch))"
proof (cases "batch_texts w batch = []")
  case True
  then have "nonws w batch = []" by (simp add: batch_texts_def nonws_def)
  then show ?thesis by (simp add: parse_batch_response_eq)
next
  case False
  let ?w0 = "w\<lparr>calls := calls w + 1\<rparr>"
  let ?ts = "parse_batch_response (strip content) (length (batch_texts w batch))"
  have len: "length (batch_texts w batch) = length (nonws w batch)"
    by (simp add: batch_texts_def nonws_def)
  have n0: "nonws ?w0 batch = nonws w batch" by (rule nonws_calls)
  have "snd (translate_batch_with_context client w batch s t c)
        = apply_translations ?ts s t batch 0 ?w0"
    using False assms(2) by (simp add: translate_batch_with_context_def Let_def)
  moreover have "map (\<lambda>b. translated_text (blocks (apply_translations ?ts s t batch 0 ?w0) b))
      (nonws ?w0 batch) = take (length (nonws ?w0 batch)) (drop 0 ?ts)"
    by (rule apply_translations_assigned [OF assms(1)])
       (simp add: nonws_calls len length_parse_batch_response)
  ultimately show ?thesis by (simp add: nonws_calls len length_parse_batch_response)
qed

section \<open>The batches of a page\<close>

lemma chunks_take:
  "concat (map (\<lambda>k. take n (drop (k * n) xs)) [0 ..< m]) = take (m * n) xs"
proof (induction m)
  case 0
  then show ?case by simp
next
  case (Suc m)
  have "take (m * n) xs @ take n (drop (m * n) xs) = take (m * n + n) xs"
    by (simp add: take_add)
  with Suc show ?case by (simp add: add.commute)
qed

lemma ceil_div_covers: "0 < n \<Longrightarrow> (l::nat) \<le> (l + n - 1) div n * n"
proof -
  assume n: "0 < n"
  have "(l + n - 1) div n * n + (l + n - 1) mod n = l + n - 1" by simp
  moreover have "(l + n - 1) mod n < n" using n by simp
  ultimately show ?thesis by linarith
qed

lemma chunks_all:
  "0 < n \<Longrightarrow> concat (map (\<lambda>k. take n (drop (k * n) xs)) [0 ..< (length xs + n - 1) div n]) = xs"
  using ceil_div_covers [of n "length xs"] by (simp add: chunks_take)

lemma page_loop_eq:
  "page_loop client s t xs n (map (\<lambda>k. k * n) ks) acc w =
     (acc @ concat (map (\<lambda>k. take n (drop (k * n) xs)) ks),
      foldl (batch_step client s t xs n) w ks)"
proof (induction ks arbitrary: acc w)
  case Nil
  then show ?case by simp
next
  case (Cons k ks)
  obtain bt w1 where st: "translate_batch_with_context client w (take n (drop (k * n) xs)) s t
            (build_context w xs (k * n) n) = (bt, w1)"
    by (cases "translate_batch_with_context client w (take n (drop (k * n) xs)) s t
            (build_context w xs (k * n) n)")
  have bt: "bt = take n (drop (k * n) xs)"
    using translate_batch_with_context_fst [of client w "take n (drop (k * n) xs)" s t
        "build_context w xs (k * n) n"] st by simp
  have w1: "w1 = batch_step client s t xs n w k"
    using st by (simp add: batch_step_def)
  show ?case using st bt w1 Cons.IH by simp
qed

lemma translate_page_blocks_eq:
  assumes "0 < batch_size config"
  shows "translate_page_blocks client config w page_blocks s t =
     Inr (sort_key (position_key w) page_blocks,
          foldl (batch_step client s t (sort_key (position_key w) page_blocks) (nat (batch_size config))) w
            [0 ..< (length page_blocks + nat (batch_size config) - 1) div nat (batch_size config)])"
proof -
  have n: "0 < nat (batch_size config)" using assms by simp
  show ?thesis
    using assms chunks_all [OF n, of "sort_key (position_key w) page_blocks"]
    by (simp add: translate_page_blocks_def range_step_def page_loop_eq Let_def)
qed

section \<open>Two facts about the example\<close>



section \<open>Sorted order and positional assignment: claim C1\<close>

text \<open>
  C1: for a positive batch size, \<open>_translate_page_blocks\<close> returns the page's blocks
  sorted by \<open>(bbox.y0, bbox.x0)\<close> (a stable sort: sorted by the key, and for every key
  value the blocks with that key in their original order) and its batches are the
  consecutive slices of that sorted list, translated in order. Within a batch of distinct
  blocks whose request succeeds, the i-th parsed translation is the \<open>translated_text\<close> of
  the i-th block of the batch whose text is not whitespace-only, whatever the texts are.
\<close>

theorem page_translation_sorted_and_positional:
  assumes "0 < batch_size config"
  shows "translate_page_blocks client config w page_blocks source_lang target_lang =
       (let sorted_blocks = sort_key (position_key w) page_blocks; n = nat (batch_size config)
        in Inr (sorted_blocks,
                foldl (\<lambda>w k. snd (translate_batch_with_context client w
                                    (take n (drop (k * n) sorted_blocks)) source_lang target_lang
                                    (build_context w sorted_blocks (k * n) n)))
                  w [0 ..< (length sorted_blocks + n - 1) div n]))
     \<and> sorted (map (position_key w) (sort_key (position_key w) page_blocks))
     \<and> (\<forall>k. filter (\<lambda>b. position_key w b = k) (sort_key (position_key w) page_blocks)
              = filter (\<lambda>b. position_key w b = k) page_blocks)
     \<and> (distinct batch
          \<and> client (calls w) (BatchRequest (batch_texts w batch) source_lang target_lang context)
              = Some content
        \<longrightarrow> map (\<lambda>b. translated_text
                        (blocks (snd (translate_batch_with_context client w batch source_lang
                                        target_lang context)) b))
               (filter (\<lambda>b. strip (text_str (blocks w b)) \<noteq> []) batch)
             = parse_batch_response (strip content)
                 (length (filter (\<lambda>b. strip (text_str (blocks w b)) \<noteq> []) batch)))"
proof -
  let ?sorted = "sort_key (position_key w) page_blocks"
  let ?n = "nat (batch_size config)"
  have st: "batch_step client source_lang target_lang ?sorted ?n
        = (\<lambda>w k. snd (translate_batch_with_context client w
              (take ?n (drop (k * ?n) ?sorted)) source_lang target_lang
              (build_context w ?sorted (k * ?n) ?n)))"
    by (rule ext, rule ext) (simp add: batch_step_def)
  have a: "translate_page_blocks client config w page_blocks source_lang target_lang =
       (let sorted_blocks = ?sorted; n = ?n
        in Inr (sorted_blocks,
                foldl (\<lambda>w k. snd (translate_batch_with_context client w
                                    (take n (drop (k * n) sorted_blocks)) source_lang target_lang
                                    (build_context w sorted_blocks (k * n) n)))
                  w [0 ..< (length sorted_blocks + n - 1) div n]))"
    unfolding Let_def st [symmetric]
    using translate_page_blocks_eq [OF assms, of client w page_blocks source_lang target_lang]
    by simp
  have b: "sorted (map (position_key w) ?sorted)" by simp
  have c: "\<forall>k. filter (\<lambda>b. position_key w b = k) ?sorted
              = filter (\<lambda>b. position_key w b = k) page_blocks"
    by (simp add: sort_key_stable)
  have d: "distinct batch
          \<and> client (calls w) (BatchRequest (batch_texts w batch) source_lang target_lang context)
              = Some content
        \<longrightarrow> map (\<lambda>b. translated_text
                        (blocks (snd (translate_batch_with_context client w batch source_lang
                                        target_lang context)) b))
               (filter (\<lambda>b. strip (text_str (blocks w b)) \<noteq> []) batch)
             = parse_batch_response (strip content)
                 (length (filter (\<lambda>b. strip (text_str (blocks w b)) \<noteq> []) batch))"
    using translate_batch_assigns [of batch client w source_lang target_lang "context" content]
    unfolding nonws_def by blast
  from a b c d show ?thesis by blast
qed

text \<open>
  Witness for C1: the three fragments of the example, given in the order 100, 50, 150,
  are translated in the order 50, 100, 150 and receive the three parsed translations in
  that order.
\<close>

theorem page_translation_sorted_and_positional_witness:
  "0 < batch_size default_config \<and> distinct [2, 0, 4::nat]
   \<and> batch_client (calls example_world)
        (BatchRequest (batch_texts example_world [2, 0, 4]) ''en'' ''es'' '''')
       = Some ''1. Titulo --- 2. Hola --- 3. Mundo''
   \<and> sort_key (position_key example_world) [0, 2, 4] = [2, 0, 4]
   \<and> (case translate_page_blocks batch_client default_config example_world [0, 2, 4] ''en'' ''es''
        of Inl e \<Rightarrow> [] | Inr (translated_blocks, w') \<Rightarrow> translated_blocks) = [2, 0, 4]
   \<and> map (\<lambda>b. translated_text
                 (blocks (snd (translate_batch_with_context batch_client example_world [2, 0, 4]
                                 ''en'' ''es'' '''')) b)) [2, 0, 4]
       = [''Titulo'', ''Hola'', ''Mundo'']"
proof -
  have h1: "0 < batch_size default_config" by (simp add: default_config_def)
  have h2: "distinct [2, 0, 4::nat]" by simp
  have h3: "batch_client (calls example_world)
        (BatchRequest (batch_texts example_world [2, 0, 4]) ''en'' ''es'' '''')
       = Some ''1. Titulo --- 2. Hola --- 3. Mundo''"
    by (simp add: batch_client_def)
  have s: "sort_key (position_key example_world) [0, 2, 4] = [2, 0, 4]"
    by (simp add: position_key_def example_world_def)
  have f: "filter (\<lambda>b. strip (text_str (blocks example_world b)) \<noteq> []) [2, 0, 4] = [2, 0, 4]"
    by (simp add: example_world_def strip_def isspace_def)
  have p: "parse_batch_response (strip ''1. Titulo --- 2. Hola --- 3. Mundo'') (length [2, 0, 4::nat])
           = [''Titulo'', ''Hola'', ''Mundo'']"
    by code_simp
  note t = page_translation_sorted_and_positional [OF h1, of batch_client example_world "[0, 2, 4]" "''en''" "''es''" "[2, 0, 4]" "''''"
      "''1. Titulo --- 2. Hola --- 3. Mundo''"]
  have a: "(case translate_page_blocks batch_client default_config example_world [0, 2, 4] ''en'' ''es''
        of Inl e \<Rightarrow> [] | Inr (translated_blocks, w') \<Rightarrow> translated_blocks) = [2, 0, 4]"
    using t s by (simp add: Let_def)
  have b: "map (\<lambda>b. translated_text
                 (blocks (snd (translate_batch_with_context batch_client example_world [2, 0, 4]
                                 ''en'' ''es'' '''')) b)) [2, 0, 4]
       = [''Titulo'', ''Hola'', ''Mundo'']"
    using t h2 h3 unfolding f p by blast
  from h1 h2 h3 s a b show ?thesis by blast
qed

section \<open>Failure of the translation service: claim C6\<close>








section \<open>The cache: claim C7\<close>

lemma cache_key_inject [simp]: "(cache_key a s t = cache_key b s t) = (a = b)"
  by (simp add: cache_key_def)














section \<open>Whitespace-only batches: claim C9\<close>

text \<open>
  C9: a batch whose fragments are all whitespace-only is returned as it is, the state is
  unchanged (no request is sent), and every fragment whose \<open>translated_text\<close> is still
  empty renders its own source text (\<open>translated_text or text\<close>).
\<close>

theorem whitespace_batch_no_calls:
  assumes "\<forall>b \<in> set batch. strip (text_str (blocks w b)) = []"
  shows "translate_batch_with_context client w batch source_lang target_lang context = (batch, w)
       \<and> calls (snd (translate_batch_with_context client w batch source_lang target_lang context))
           = calls w
       \<and> (\<forall>b \<in> set batch. translated_text (blocks w b) = [] \<longrightarrow>
            rendered_text
              (blocks (snd (translate_batch_with_context client w batch source_lang target_lang
                              context)) b)
              = text_str (blocks w b))"
proof -
  have "batch_texts w batch = []"
    using assms by (simp add: batch_texts_def filter_empty_conv)
  then have e: "translate_batch_with_context client w batch source_lang target_lang context
      = (batch, w)"
    by (simp add: translate_batch_with_context_def)
  then show ?thesis by (simp add: rendered_text_def)
qed

text \<open>Witness for C9: two whitespace-only fragments of the example.\<close>

theorem whitespace_batch_no_calls_witness:
  "list_all (\<lambda>b. strip (text_str (blocks example_world b)) = []) [3, 5]
   \<and> list_all (\<lambda>b. translated_text (blocks example_world b) = []) [3, 5]
   \<and> translate_batch_with_context failing_client example_world [3, 5] ''en'' ''es'' ''''
       = ([3, 5], example_world)
   \<and> calls (snd (translate_batch_with_context failing_client example_world [3, 5] ''en'' ''es''
         '''')) = calls example_world
   \<and> map (\<lambda>b. rendered_text (blocks (snd (translate_batch_with_context failing_client
           example_world [3, 5] ''en'' ''es'' '''')) b)) [3, 5]
       = map (\<lambda>b. text_str (blocks example_world b)) [3, 5]"
proof -
  have h: "\<forall>b \<in> set [3, 5]. strip (text_str (blocks example_world b)) = []"
    by (simp add: example_world_def strip_def isspace_def)
  have e: "\<forall>b \<in> set [3, 5]. translated_text (blocks example_world b) = []"
    by (simp add: example_world_def)
  note t = whitespace_batch_no_calls [OF h, of failing_client "''en''" "''es''" "''''"]
  have "\<forall>b \<in> set [3, 5].
        rendered_text (blocks (snd (translate_batch_with_context failing_client example_world
           [3, 5] ''en'' ''es'' '''')) b) = text_str (blocks example_world b)"
    using t e by blast
  then have c: "map (\<lambda>b. rendered_text (blocks (snd (translate_batch_with_context failing_client
           example_world [3, 5] ''en'' ''es'' '''')) b)) [3, 5]
       = map (\<lambda>b. text_str (blocks example_world b)) [3, 5]"
    by (simp only: map_eq_conv)
  have h': "list_all (\<lambda>b. strip (text_str (blocks example_world b)) = []) [3, 5]"
    using h by (simp only: list_all_iff)
  have e': "list_all (\<lambda>b. translated_text (blocks example_world b) = []) [3, 5]"
    using e by (simp only: list_all_iff)
  from t h' e' c show ?thesis by blast
qed

section \<open>Batches and the single pass: claim C5\<close>

lemma render_pages_append:
  "render_pages config uf hp tbs (xs @ ys) w =
     (case render_pages config uf hp tbs xs w of
        Inl e \<Rightarrow> Inl e
      | Inr (d1, w1) \<Rightarrow>
          (case render_pages config uf hp tbs ys w1 of
             Inl e \<Rightarrow> Inl e
           | Inr (d2, w2) \<Rightarrow> Inr (d1 @ d2, w2)))"
  by (induction xs arbitrary: w) (auto split: sum.splits)

lemma render_page_ok:
  "hp (page_number p) \<Longrightarrow> \<exists>pg w'. render_page config uf hp w p tbs = Inr (pg, w')"
  by (simp add: render_page_def Let_def split: prod.splits)

lemma render_pages_ok:
  "\<forall>p \<in> set ps. hp (page_number p) \<Longrightarrow>
   \<exists>d w'. render_pages config uf hp tbs ps w = Inr (d, w') \<and> length d = length ps"
proof (induction ps arbitrary: w)
  case Nil
  then show ?case by simp
next
  case (Cons p ps)
  then obtain pg w1 where p: "render_page config uf hp w p tbs = Inr (pg, w1)"
    using render_page_ok [of hp p config uf w tbs] by auto
  from Cons obtain d w2 where d: "render_pages config uf hp tbs ps w1 = Inr (d, w2)"
      "length d = length ps"
    by fastforce
  show ?case using p d by simp
qed

lemma render_pages_length:
  "render_pages config uf hp tbs ps w = Inr (d, w') \<Longrightarrow> length d = length ps"
proof (induction ps arbitrary: w d)
  case Nil
  then show ?case by simp
next
  case (Cons p ps)
  from Cons.prems obtain pg w1 d1 where
    "render_pages config uf hp tbs ps w1 = Inr (d1, w')" and "d = pg # d1"
    by (auto split: sum.splits)
  with Cons.IH show ?case by auto
qed

lemma merge_loop_eq:
  "merge_loop fs ps acc = acc @ concat (map (file_pages fs) ps)"
  by (induction ps arbitrary: acc) (auto simp: file_pages_def split: option.splits)

lemma batch_loop_all:
  assumes hp: "\<forall>p \<in> set pages. hp (page_number p)"
  shows "distinct (map (batch_path dir pages ppb) ks) \<Longrightarrow>
     \<forall>q \<in> set acc. q \<notin> set (map (batch_path dir pages ppb) ks) \<Longrightarrow>
     \<forall>k \<in> set ks. page_slice pages ppb k \<noteq> [] \<Longrightarrow>
     \<exists>bfs fs' w' d.
       batch_loop config uf hp pages tbs dir ppb ks acc fs w = (bfs, fs', w')
       \<and> render_pages config uf hp tbs (concat (map (page_slice pages ppb) ks)) w = Inr (d, w')
       \<and> merge_loop fs' bfs [] = merge_loop fs acc [] @ d"
proof (induction ks arbitrary: acc fs w)
  case Nil
  then show ?case by simp
next
  case (Cons k ks)
  let ?path = "batch_path dir pages ppb k"
  have sl: "\<forall>p \<in> set (page_slice pages ppb k). hp (page_number p)"
    using hp by (simp add: page_slice_def)
  obtain d1 w1 where d1: "render_pages config uf hp tbs (page_slice pages ppb k) w = Inr (d1, w1)"
    and ld: "length d1 = length (page_slice pages ppb k)"
    using render_pages_ok [OF sl, of config uf tbs w] by blast
  have "page_slice pages ppb k \<noteq> []" using Cons.prems(3) by simp
  with ld have ne: "d1 \<noteq> []" by auto
  have cs: "create_side_by_side_pdf config uf hp w fs pages tbs ?path
      (Some (int k * ppb, min (int k * ppb + ppb) (int (length pages))))
      = Inr (fs(?path \<mapsto> d1), w1)"
    using d1 ne by (simp add: create_side_by_side_pdf_def page_slice_def save_def)
  have dk: "distinct (map (batch_path dir pages ppb) ks)" using Cons.prems(1) by simp
  have nk: "?path \<notin> set (map (batch_path dir pages ppb) ks)" using Cons.prems(1) by simp
  have na: "?path \<notin> set acc" using Cons.prems(2) by auto
  have pa: "\<forall>q \<in> set (acc @ [?path]). q \<notin> set (map (batch_path dir pages ppb) ks)"
    using Cons.prems(2) nk by auto
  have sk: "\<forall>k \<in> set ks. page_slice pages ppb k \<noteq> []" using Cons.prems(3) by simp
  from Cons.IH [OF dk pa sk, of "fs(?path \<mapsto> d1)" w1]
  obtain bfs fs' w' d2 where ih:
    "batch_loop config uf hp pages tbs dir ppb ks (acc @ [?path]) (fs(?path \<mapsto> d1)) w1
       = (bfs, fs', w')"
    "render_pages config uf hp tbs (concat (map (page_slice pages ppb) ks)) w1 = Inr (d2, w')"
    "merge_loop fs' bfs [] = merge_loop (fs(?path \<mapsto> d1)) (acc @ [?path]) [] @ d2"
    by blast
  have bl: "batch_loop config uf hp pages tbs dir ppb (k # ks) acc fs w = (bfs, fs', w')"
    using cs ih(1) by (simp add: Let_def batch_path_def)
  have rp: "render_pages config uf hp tbs (concat (map (page_slice pages ppb) (k # ks))) w
      = Inr (d1 @ d2, w')"
    using d1 ih(2) by (simp add: render_pages_append)
  have m: "map (file_pages (fs(?path \<mapsto> d1))) acc = map (file_pages fs) acc"
    using na by (auto simp: file_pages_def)
  have fp: "file_pages (fs(?path \<mapsto> d1)) ?path = d1" by (simp add: file_pages_def)
  have "merge_loop (fs(?path \<mapsto> d1)) (acc @ [?path]) []
        = concat (map (file_pages (fs(?path \<mapsto> d1))) acc) @ file_pages (fs(?path \<mapsto> d1)) ?path"
    by (simp add: merge_loop_eq)
  also have "\<dots> = concat (map (file_pages fs) acc) @ d1" by (simp only: m fp)
  also have "\<dots> = merge_loop fs acc [] @ d1" by (simp add: merge_loop_eq)
  finally have "merge_loop (fs(?path \<mapsto> d1)) (acc @ [?path]) [] = merge_loop fs acc [] @ d1" .
  with ih(3) have mg: "merge_loop fs' bfs [] = merge_loop fs acc [] @ d1 @ d2" by simp
  from bl rp mg show ?case by blast
qed

lemma page_number_get_page_info [simp]: "page_number (get_page_info doc i) = int i"
  by (simp add: get_page_info_def split: prod.splits)

lemma filter_upt_range: "filter (\<lambda>i. a \<le> i \<and> i < b) [0 ..< n] = [a ..< min b n]"
proof (induction n)
  case 0
  then show ?case by simp
next
  case (Suc n)
  show ?case
  proof (cases "a \<le> n \<and> n < b")
    case True
    then have "min b (Suc n) = Suc n" "min b n = n" by simp_all
    with Suc True show ?thesis by simp
  next
    case False
    then have "[a ..< min b (Suc n)] = [a ..< min b n]"
      by (cases "n < b") (auto simp: min_def)
    with Suc False show ?thesis by auto
  qed
qed

lemma page_slice_extract:
  "page_slice (extract_pages doc) (int p) =
     (\<lambda>k. map (get_page_info doc) [k * p ..< min (k * p + p) (length doc)])"
proof
  fix k
  have pe: "\<And>i. (int k * int p \<le> int i \<and> int i < min (int k * int p + int p) (int (length doc)))
        = (k * p \<le> i \<and> i < min (k * p + p) (length doc))"
    by (simp add: min_def flip: of_nat_mult of_nat_add)
  have "page_slice (extract_pages doc) (int p) k
        = map (get_page_info doc)
            (filter (\<lambda>i. int k * int p \<le> int i
                        \<and> int i < min (int k * int p + int p) (int (length doc))) [0 ..< length doc])"
    by (simp only: page_slice_def extract_pages_def filter_map comp_def page_number_get_page_info
        length_map length_upt diff_zero)
  also have "\<dots> = map (get_page_info doc)
            (filter (\<lambda>i. k * p \<le> i \<and> i < min (k * p + p) (length doc)) [0 ..< length doc])"
    by (simp only: pe)
  also have "\<dots> = map (get_page_info doc) [k * p ..< min (min (k * p + p) (length doc)) (length doc)]"
    by (simp only: filter_upt_range)
  also have "\<dots> = map (get_page_info doc) [k * p ..< min (k * p + p) (length doc)]"
    by simp
  finally show "page_slice (extract_pages doc) (int p) k
      = map (get_page_info doc) [k * p ..< min (k * p + p) (length doc)]" .
qed

lemma upt_chunks:
  "concat (map (\<lambda>k. [k * p ..< min (k * p + p) n]) [0 ..< m]) = [0 ..< min (m * p) n]"
proof (induction m)
  case 0
  then show ?case by simp
next
  case (Suc m)
  have "[0 ..< min (m * p) n] @ [m * p ..< min (m * p + p) n] = [0 ..< min (m * p + p) n]"
  proof (cases "m * p \<le> n")
    case True
    then have "min (m * p) n = m * p" by simp
    moreover have "m * p \<le> min (m * p + p) n" using True by simp
    ultimately show ?thesis by (metis le0 le_add_diff_inverse upt_add_eq_append)
  next
    case False
    then show ?thesis by simp
  qed
  with Suc show ?case by (simp add: add.commute)
qed

lemma slices_cover:
  assumes "0 < p"
  shows "concat (map (page_slice (extract_pages doc) (int p)) [0 ..< (length doc + p - 1) div p])
         = extract_pages doc"
proof -
  have "concat (map (page_slice (extract_pages doc) (int p)) [0 ..< (length doc + p - 1) div p])
      = map (get_page_info doc)
          (concat (map (\<lambda>k. [k * p ..< min (k * p + p) (length doc)])
             [0 ..< (length doc + p - 1) div p]))"
    by (simp add: page_slice_extract map_concat comp_def)
  also have "\<dots> = map (get_page_info doc) [0 ..< min ((length doc + p - 1) div p * p) (length doc)]"
    by (simp only: upt_chunks)
  also have "\<dots> = extract_pages doc"
    using ceil_div_covers [OF assms, of "length doc"] by (simp add: extract_pages_def min_def)
  finally show ?thesis .
qed

lemma batch_starts_inside:
  assumes "0 < p" and "k < (n + p - 1) div p"
  shows "k * p < (n::nat)"
proof (rule ccontr)
  assume "\<not> k * p < n"
  then have "n + p - 1 < Suc k * p" using assms(1) by simp
  then have "(n + p - 1) div p < Suc k" by (rule less_mult_imp_div_less)
  with assms(2) show False by simp
qed

lemma slices_nonempty:
  assumes "0 < p"
  shows "\<forall>k \<in> set [0 ..< (length doc + p - 1) div p].
           page_slice (extract_pages doc) (int p) k \<noteq> []"
proof
  fix k
  assume "k \<in> set [0 ..< (length doc + p - 1) div p]"
  then have "k * p < length doc" using batch_starts_inside [OF assms] by simp
  then have "k * p < min (k * p + p) (length doc)" using assms by simp
  then show "page_slice (extract_pages doc) (int p) k \<noteq> []"
    by (auto simp: page_slice_extract)
qed

lemma distinct_batch_paths:
  assumes "1 \<le> ppb"
  shows "distinct (map (batch_path dir pages ppb) ks) = distinct ks"
proof -
  have "inj (batch_path dir pages ppb)"
    using assms by (auto simp: inj_on_def batch_path_def)
  then have "inj_on (batch_path dir pages ppb) (set ks)"
    by (rule inj_on_subset) simp
  then show ?thesis by (simp add: distinct_map)
qed

lemma num_batches_nat:
  assumes "1 \<le> ppb"
  shows "nat ((int n + ppb - 1) div ppb) = (n + nat ppb - 1) div nat ppb"
proof -
  have p: "ppb = int (nat ppb)" "0 < nat ppb" using assms by simp_all
  have "int n + int (nat ppb) - 1 = int (n + nat ppb - 1)" using p(2) by simp
  then have "(int n + int (nat ppb) - 1) div int (nat ppb) = int ((n + nat ppb - 1) div nat ppb)"
    by (simp only: zdiv_int)
  then have "nat ((int n + int (nat ppb) - 1) div int (nat ppb)) = (n + nat ppb - 1) div nat ppb"
    by simp
  then show ?thesis using p(1) by simp
qed

lemma batches_cover_single_pass:
  assumes "1 \<le> pages_per_batch"
    and "\<forall>i < length doc. has_page (int i)"
  shows "\<exists>batch_files fs' w' merged.
     process_large_pdf_in_batches config unicode_font has_page w fs (extract_pages doc) text_blocks
         output_dir pages_per_batch = Inr (batch_files, fs', w')
     \<and> render_pages config unicode_font has_page text_blocks (extract_pages doc) w
         = Inr (merged, w')
     \<and> merge_loop fs' batch_files [] = merged
     \<and> length merged = length doc
     \<and> (doc = [] \<longrightarrow> batch_files = [] \<and> fs' = fs \<and> w' = w)"
proof -
  let ?pages = "extract_pages doc"
  let ?p = "nat pages_per_batch"
  let ?ks = "[0 ..< (length doc + ?p - 1) div ?p]"
  have p: "0 < ?p" "pages_per_batch = int ?p" using assms(1) by simp_all
  have hp: "\<forall>q \<in> set ?pages. has_page (page_number q)"
    using assms(2) by (auto simp: extract_pages_def)
  have len: "length ?pages = length doc" by (simp add: extract_pages_def)
  have dk: "distinct (map (batch_path output_dir ?pages pages_per_batch) ?ks)"
    by (simp add: distinct_batch_paths [OF assms(1)])
  have sn: "\<forall>k \<in> set ?ks. page_slice ?pages pages_per_batch k \<noteq> []"
    using slices_nonempty [OF p(1), of doc] p(2) by simp
  have ac: "\<forall>q \<in> set []. q \<notin> set (map (batch_path output_dir ?pages pages_per_batch) ?ks)"
    by simp
  from batch_loop_all [OF hp dk ac sn, of config unicode_font text_blocks fs w]
  obtain bfs fs' w' d where bl:
    "batch_loop config unicode_font has_page ?pages text_blocks output_dir pages_per_batch ?ks []
       fs w = (bfs, fs', w')"
    "render_pages config unicode_font has_page text_blocks
       (concat (map (page_slice ?pages pages_per_batch) ?ks)) w = Inr (d, w')"
    "merge_loop fs' bfs [] = merge_loop fs [] [] @ d"
    by auto
  have cv: "concat (map (page_slice ?pages pages_per_batch) ?ks) = ?pages"
    using slices_cover [OF p(1), of doc] p(2) by simp
  have pr: "process_large_pdf_in_batches config unicode_font has_page w fs ?pages text_blocks
         output_dir pages_per_batch = Inr (bfs, fs', w')"
    using assms(1) bl(1) num_batches_nat [OF assms(1), of "length doc"]
    by (simp add: process_large_pdf_in_batches_def Let_def len)
  have rp: "render_pages config unicode_font has_page text_blocks ?pages w = Inr (d, w')"
    using bl(2) cv by simp
  have mg: "merge_loop fs' bfs [] = d" using bl(3) by simp
  have ld: "length d = length doc"
    using render_pages_length [OF rp] len by simp
  have em: "doc = [] \<longrightarrow> bfs = [] \<and> fs' = fs \<and> w' = w"
  proof
    assume "doc = []"
    then have "?ks = []" using p(1) by simp
    with bl(1) show "bfs = [] \<and> fs' = fs \<and> w' = w" by simp
  qed
  from pr rp mg ld em show ?thesis by blast
qed

text \<open>
  C5: for the page list the extractor yields for a document whose pages all load, and for
  \<open>pages_per_batch\<close> at least 1, processing in page-range batches succeeds, and merging the
  batch files in the order they were produced writes, at the final path, the document that
  the single pass over all pages writes at its output path: the same pages, in the same
  order, one for each page of the input. \<open>merge_batch_pdfs\<close> writes that file and then
  raises \<open>ValueError\<close>, as it always does. For a document with no page neither way writes
  a document: the single pass raises at its save, no batch file is made, and the merge
  raises at its save.
\<close>

theorem batched_equals_single_pass:
  assumes "1 \<le> pages_per_batch"
    and "\<forall>i < length doc. has_page (int i)"
  shows "(doc \<noteq> [] \<longrightarrow>
           (\<exists>batch_files fs' w' merged.
              process_large_pdf_in_batches config unicode_font has_page w fs (extract_pages doc)
                  text_blocks output_dir pages_per_batch = Inr (batch_files, fs', w')
              \<and> create_side_by_side_pdf config unicode_font has_page w fs (extract_pages doc)
                  text_blocks output_path None = Inr (fs(output_path \<mapsto> merged), w')
              \<and> merge_batch_pdfs fs' batch_files final_output_path
                  = (ValueError, fs'(final_output_path \<mapsto> merged))
              \<and> length merged = length doc))
       \<and> (doc = [] \<longrightarrow>
             process_large_pdf_in_batches config unicode_font has_page w fs (extract_pages doc)
                 text_blocks output_dir pages_per_batch = Inr ([], fs, w)
             \<and> create_side_by_side_pdf config unicode_font has_page w fs (extract_pages doc)
                 text_blocks output_path None = Inl ValueError
             \<and> merge_batch_pdfs fs [] final_output_path = (ValueError, fs))"
proof -
  from batches_cover_single_pass [OF assms, of config unicode_font w fs text_blocks output_dir]
  obtain bfs fs' w' d where b:
    "process_large_pdf_in_batches config unicode_font has_page w fs (extract_pages doc) text_blocks
         output_dir pages_per_batch = Inr (bfs, fs', w')"
    "render_pages config unicode_font has_page text_blocks (extract_pages doc) w = Inr (d, w')"
    "merge_loop fs' bfs [] = d"
    "length d = length doc"
    "doc = [] \<longrightarrow> bfs = [] \<and> fs' = fs \<and> w' = w"
    by blast
  have one: "doc \<noteq> [] \<longrightarrow>
           (\<exists>batch_files fs' w' merged.
              process_large_pdf_in_batches config unicode_font has_page w fs (extract_pages doc)
                  text_blocks output_dir pages_per_batch = Inr (batch_files, fs', w')
              \<and> create_side_by_side_pdf config unicode_font has_page w fs (extract_pages doc)
                  text_blocks output_path None = Inr (fs(output_path \<mapsto> merged), w')
              \<and> merge_batch_pdfs fs' batch_files final_output_path
                  = (ValueError, fs'(final_output_path \<mapsto> merged))
              \<and> length merged = length doc)"
  proof
    assume "doc \<noteq> []"
    with b(4) have ne: "d \<noteq> []" by auto
    have cr: "create_side_by_side_pdf config unicode_font has_page w fs (extract_pages doc)
        text_blocks output_path None = Inr (fs(output_path \<mapsto> d), w')"
      using b(2) ne by (simp add: create_side_by_side_pdf_def save_def)
    have mg: "merge_batch_pdfs fs' bfs final_output_path
        = (ValueError, fs'(final_output_path \<mapsto> d))"
      using b(3) ne by (simp add: merge_batch_pdfs_def save_def)
    from b(1) cr mg b(4) show "\<exists>batch_files fs' w' merged.
              process_large_pdf_in_batches config unicode_font has_page w fs (extract_pages doc)
                  text_blocks output_dir pages_per_batch = Inr (batch_files, fs', w')
              \<and> create_side_by_side_pdf config unicode_font has_page w fs (extract_pages doc)
                  text_blocks output_path None = Inr (fs(output_path \<mapsto> merged), w')
              \<and> merge_batch_pdfs fs' batch_files final_output_path
                  = (ValueError, fs'(final_output_path \<mapsto> merged))
              \<and> length merged = length doc"
      by blast
  qed
  have two: "doc = [] \<longrightarrow>
             process_large_pdf_in_batches config unicode_font has_page w fs (extract_pages doc)
                 text_blocks output_dir pages_per_batch = Inr ([], fs, w)
             \<and> create_side_by_side_pdf config unicode_font has_page w fs (extract_pages doc)
                 text_blocks output_path None = Inl ValueError
             \<and> merge_batch_pdfs fs [] final_output_path = (ValueError, fs)"
  proof
    assume e: "doc = []"
    with b(5) have "bfs = []" "fs' = fs" "w' = w" by simp_all
    with b(1) have pr: "process_large_pdf_in_batches config unicode_font has_page w fs
        (extract_pages doc) text_blocks output_dir pages_per_batch = Inr ([], fs, w)"
      by simp
    have cr: "create_side_by_side_pdf config unicode_font has_page w fs (extract_pages doc)
        text_blocks output_path None = Inl ValueError"
      using e by (simp add: create_side_by_side_pdf_def extract_pages_def save_def)
    have mg: "merge_batch_pdfs fs [] final_output_path = (ValueError, fs)"
      by (simp add: merge_batch_pdfs_def save_def)
    from pr cr mg show "process_large_pdf_in_batches config unicode_font has_page w fs
          (extract_pages doc) text_blocks output_dir pages_per_batch = Inr ([], fs, w)
        \<and> create_side_by_side_pdf config unicode_font has_page w fs (extract_pages doc)
            text_blocks output_path None = Inl ValueError
        \<and> merge_batch_pdfs fs [] final_output_path = (ValueError, fs)"
      by blast
  qed
  from one two show ?thesis by blast
qed

text \<open>
  Witness for C5: the three-page example in batches of two pages, and the document with
  no page.
\<close>

theorem batched_equals_single_pass_witness:
  "(1::int) \<le> 2 \<and> list_all (\<lambda>i. example_has_page (int i)) [0 ..< length example_doc]
   \<and> example_doc \<noteq> []
   \<and> (\<exists>batch_files fs' w' merged.
        process_large_pdf_in_batches default_config None example_has_page example_world Map.empty
          (extract_pages example_doc) [0, 2, 4] ''out'' 2 = Inr (batch_files, fs', w')
      \<and> create_side_by_side_pdf default_config None example_has_page example_world Map.empty
          (extract_pages example_doc) [0, 2, 4] (NamedFile ''single.pdf'') None
          = Inr ([NamedFile ''single.pdf'' \<mapsto> merged], w')
      \<and> merge_batch_pdfs fs' batch_files (NamedFile ''merged.pdf'')
          = (ValueError, fs'(NamedFile ''merged.pdf'' \<mapsto> merged))
      \<and> length merged = length example_doc)
   \<and> list_all (\<lambda>i. example_has_page (int i)) [0 ..< length ([] :: (real \<times> real \<times> int) list)]
   \<and> process_large_pdf_in_batches default_config None example_has_page example_world Map.empty
        (extract_pages []) [0, 2, 4] ''out'' 2 = Inr ([], Map.empty, example_world)
   \<and> create_side_by_side_pdf default_config None example_has_page example_world Map.empty
        (extract_pages []) [0, 2, 4] (NamedFile ''single.pdf'') None = Inl ValueError
   \<and> merge_batch_pdfs Map.empty [] (NamedFile ''merged.pdf'') = (ValueError, Map.empty)"
proof -
  have h1: "(1::int) \<le> 2" by simp
  have h2: "\<forall>i < length example_doc. example_has_page (int i)"
    by (simp add: example_doc_def example_has_page_def)
  have h2': "list_all (\<lambda>i. example_has_page (int i)) [0 ..< length example_doc]"
    using h2 by (simp add: list_all_iff)
  have h3: "example_doc \<noteq> []" by (simp add: example_doc_def)
  have e2: "\<forall>i < length ([] :: (real \<times> real \<times> int) list). example_has_page (int i)" by simp
  have e2': "list_all (\<lambda>i. example_has_page (int i)) [0 ..< length ([] :: (real \<times> real \<times> int) list)]"
    by simp
  note a = batched_equals_single_pass [OF h1 h2, where config = default_config
      and unicode_font = None and w = example_world and fs = Map.empty
      and text_blocks = "[0, 2, 4]" and output_dir = "''out''"
      and output_path = "NamedFile ''single.pdf''"
      and final_output_path = "NamedFile ''merged.pdf''"]
  note b = batched_equals_single_pass [OF h1 e2, where config = default_config
      and unicode_font = None and w = example_world and fs = Map.empty
      and text_blocks = "[0, 2, 4]" and output_dir = "''out''"
      and output_path = "NamedFile ''single.pdf''"
      and final_output_path = "NamedFile ''merged.pdf''"]
  from a h3 have 1: "\<exists>batch_files fs' w' merged.
        process_large_pdf_in_batches default_config None example_has_page example_world Map.empty
          (extract_pages example_doc) [0, 2, 4] ''out'' 2 = Inr (batch_files, fs', w')
      \<and> create_side_by_side_pdf default_config None example_has_page example_world Map.empty
          (extract_pages example_doc) [0, 2, 4] (NamedFile ''single.pdf'') None
          = Inr ([NamedFile ''single.pdf'' \<mapsto> merged], w')
      \<and> merge_batch_pdfs fs' batch_files (NamedFile ''merged.pdf'')
          = (ValueError, fs'(NamedFile ''merged.pdf'' \<mapsto> merged))
      \<and> length merged = length example_doc"
    by blast
  from b have 2: "process_large_pdf_in_batches default_config None example_has_page example_world
        Map.empty (extract_pages []) [0, 2, 4] ''out'' 2 = Inr ([], Map.empty, example_world)
   \<and> create_side_by_side_pdf default_config None example_has_page example_world Map.empty
        (extract_pages []) [0, 2, 4] (NamedFile ''single.pdf'') None = Inl ValueError
   \<and> merge_batch_pdfs Map.empty [] (NamedFile ''merged.pdf'') = (ValueError, Map.empty)"
    by blast
  from h1 h2' h3 1 e2' 2 show ?thesis by blast
qed

section \<open>What the pipeline writes: claim C8\<close>

lemma batch_step_layout: "same_layout w (batch_step client s t xs n w k)"
  unfolding batch_step_def by (rule translate_batch_with_context_layout)

lemma foldl_batch_step_layout: "same_layout w (foldl (batch_step client s t xs n) w ks)"
proof (induction ks arbitrary: w)
  case Nil
  then show ?case by simp
next
  case (Cons k ks)
  have "same_layout w (batch_step client s t xs n w k)" by (rule batch_step_layout)
  also have "same_layout (batch_step client s t xs n w k)
      (foldl (batch_step client s t xs n) (batch_step client s t xs n w k) ks)"
    by (rule Cons.IH)
  finally show ?case by simp
qed

lemma translate_page_blocks_layout:
  assumes "translate_page_blocks client config w page_blocks s t = Inr (res, w')"
  shows "same_layout w w'"
proof (cases "0 < batch_size config")
  case True
  from translate_page_blocks_eq [OF True, of client w page_blocks s t] assms
  have "w' = foldl (batch_step client s t (sort_key (position_key w) page_blocks)
      (nat (batch_size config))) w
      [0 ..< (length page_blocks + nat (batch_size config) - 1) div nat (batch_size config)]"
    by simp
  then show ?thesis by (simp add: foldl_batch_step_layout)
next
  case False
  with assms have "w' = w"
    by (simp add: translate_page_blocks_def Let_def split: if_splits)
  then show ?thesis by simp
qed

lemma translate_pages_layout:
  "translate_pages client config s t pages acc w = Inr (res, w') \<Longrightarrow> same_layout w w'"
proof (induction pages arbitrary: acc w)
  case Nil
  then show ?case by simp
next
  case (Cons pg pages)
  obtain page_num page_blocks where pg: "pg = (page_num, page_blocks)" by (cases pg)
  from Cons.prems pg obtain r1 w1 where
    1: "translate_page_blocks client config w page_blocks s t = Inr (r1, w1)" and
    2: "translate_pages client config s t pages (acc @ r1) w1 = Inr (res, w')"
    by (auto split: sum.splits)
  have "same_layout w w1" using 1 by (rule translate_page_blocks_layout)
  also have "same_layout w1 w'" using 2 by (rule Cons.IH)
  finally show ?case .
qed

lemma translate_text_blocks_layout:
  "translate_text_blocks client config w text_blocks s t = Inr (res, w') \<Longrightarrow> same_layout w w'"
  unfolding translate_text_blocks_def by (rule translate_pages_layout)

lemma same_layout_blocks:
  assumes "same_layout w w'"
  shows "blocks w' r = (blocks w r)\<lparr>translated_text := translated_text (blocks w' r)\<rparr>"
proof -
  from assms have "untranslated w' r = untranslated w r" by (simp add: same_layout_def)
  then have "(blocks w' r)\<lparr>translated_text := ''''\<rparr> = (blocks w r)\<lparr>translated_text := ''''\<rparr>"
    by (simp add: untranslated_def)
  then have "(blocks w' r)\<lparr>translated_text := ''''\<rparr>\<lparr>translated_text := translated_text (blocks w' r)\<rparr>
      = (blocks w r)\<lparr>translated_text := ''''\<rparr>\<lparr>translated_text := translated_text (blocks w' r)\<rparr>"
    by simp
  then show ?thesis by simp
qed

lemma translate_pages_ok:
  "0 < batch_size config \<Longrightarrow> \<exists>res w'. translate_pages client config s t pages acc w = Inr (res, w')"
proof (induction pages arbitrary: acc w)
  case Nil
  then show ?case by simp
next
  case (Cons pg pages)
  obtain page_num page_blocks where pg: "pg = (page_num, page_blocks)" by (cases pg)
  from translate_page_blocks_eq [OF Cons.prems, of client w page_blocks s t]
  obtain r1 w1 where 1: "translate_page_blocks client config w page_blocks s t = Inr (r1, w1)"
    by blast
  from Cons.IH [OF Cons.prems, of "acc @ r1" w1] show ?case using pg 1 by simp
qed

lemma keeps_allocated_refl: "keeps_allocated w w"
  by (simp add: keeps_allocated_def)

lemma keeps_allocated_trans [trans]:
  "keeps_allocated w w1 \<Longrightarrow> keeps_allocated w1 w2 \<Longrightarrow> keeps_allocated w w2"
  by (auto simp: keeps_allocated_def)

lemma copy_shift_keeps_aux:
  "keeps_allocated w
     (shift_x1 (fst (deepcopy w b)) off (shift_x0 (fst (deepcopy w b)) off (snd (deepcopy w b))))"
  by (simp add: deepcopy_def Let_def keeps_allocated_def shift_x0_def shift_x1_def)

lemma copy_shift_keeps:
  assumes "deepcopy w b = (r, w1)"
  shows "keeps_allocated w (shift_x1 r off (shift_x0 r off w1))"
  using copy_shift_keeps_aux [of w b off] assms by simp

lemma draw_blocks_keeps:
  "keeps_allocated w (snd (draw_blocks config uf off bs w))"
proof (induction bs arbitrary: w)
  case Nil
  then show ?case by (simp add: keeps_allocated_refl)
next
  case (Cons b bs)
  obtain r w1 where dc: "deepcopy w b = (r, w1)" by (cases "deepcopy w b")
  let ?w3 = "shift_x1 r off (shift_x0 r off w1)"
  obtain rest w4 where db: "draw_blocks config uf off bs ?w3 = (rest, w4)"
    by (cases "draw_blocks config uf off bs ?w3")
  have "keeps_allocated w ?w3" using dc by (rule copy_shift_keeps)
  also have "keeps_allocated ?w3 w4" using Cons.IH [of ?w3] db by simp
  finally show ?case using dc db by (simp add: Let_def)
qed

lemma render_page_keeps:
  "render_page config uf hp w p tbs = Inr (pg, w') \<Longrightarrow> keeps_allocated w w'"
  using draw_blocks_keeps [of w config uf "fl (width p + 10)"
      "sort_key (position_key w) (filter (\<lambda>b. page (blocks w b) = page_number p) tbs)"]
  by (auto simp: render_page_def Let_def split: if_splits prod.splits)

lemma render_pages_keeps:
  "render_pages config uf hp tbs ps w = Inr (d, w') \<Longrightarrow> keeps_allocated w w'"
proof (induction ps arbitrary: w d)
  case Nil
  then show ?case by (simp add: keeps_allocated_refl)
next
  case (Cons p ps)
  from Cons.prems obtain pg w1 d1 where
    1: "render_page config uf hp w p tbs = Inr (pg, w1)" and
    2: "render_pages config uf hp tbs ps w1 = Inr (d1, w')"
    by (auto split: sum.splits)
  have "keeps_allocated w w1" using 1 by (rule render_page_keeps)
  also have "keeps_allocated w1 w'" using 2 by (rule Cons.IH)
  finally show ?case .
qed

lemma create_side_by_side_pdf_keeps:
  "create_side_by_side_pdf config uf hp w fs pages tbs out page_range = Inr (fs', w') \<Longrightarrow>
   keeps_allocated w w'"
  unfolding create_side_by_side_pdf_def Let_def
  by (auto split: sum.splits dest: render_pages_keeps)

lemma batch_loop_keeps:
  "keeps_allocated w (snd (snd (batch_loop config uf hp pages tbs dir ppb ks acc fs w)))"
proof (induction ks arbitrary: acc fs w)
  case Nil
  then show ?case by (simp add: keeps_allocated_refl)
next
  case (Cons k ks)
  let ?range = "Some (int k * ppb, min (int k * ppb + ppb) (int (length pages)))"
  let ?path = "BatchFile dir (int k * ppb + 1) (min (int k * ppb + ppb) (int (length pages)))"
  show ?case
  proof (cases "create_side_by_side_pdf config uf hp w fs pages tbs ?path ?range")
    case (Inl e)
    then show ?thesis using Cons.IH [where acc = acc and fs = fs and w = w] by (simp add: Let_def)
  next
    case (Inr r)
    obtain fs1 w1 where r: "r = (fs1, w1)" by (cases r)
    have "keeps_allocated w w1"
      using Inr r by (auto intro: create_side_by_side_pdf_keeps)
    also have "keeps_allocated w1
        (snd (snd (batch_loop config uf hp pages tbs dir ppb ks (acc @ [?path]) fs1 w1)))"
      by (rule Cons.IH)
    finally show ?thesis using Inr r by (simp add: Let_def)
  qed
qed

lemma process_large_pdf_in_batches_keeps:
  "process_large_pdf_in_batches config uf hp w fs pages tbs dir ppb = Inr (bfs, fs', w') \<Longrightarrow>
   keeps_allocated w w'"
  using batch_loop_keeps [where w = w and config = config and uf = uf and hp = hp and pages = pages
      and tbs = tbs and dir = dir and ppb = ppb
      and ks = "[0 ..< nat ((int (length pages) + ppb - 1) div ppb)]"
      and acc = "[]" and fs = fs]
  by (auto simp: process_large_pdf_in_batches_def Let_def split: if_splits)

text \<open>
  C8: translation leaves every box unchanged and changes no field of any block but
  \<open>translated_text\<close>; composition leaves every block and every box that existed before it
  unchanged: the shifted coordinates are written to the copy it allocates.
\<close>

theorem only_translated_text_written:
  "(translate_text_blocks client config w text_blocks source_lang target_lang = Inr (res, w1)
      \<longrightarrow> bboxes w1 = bboxes w
          \<and> (\<forall>r. blocks w1 r = (blocks w r)\<lparr>translated_text := translated_text (blocks w1 r)\<rparr>))
   \<and> (create_side_by_side_pdf config unicode_font has_page w fs pages text_blocks output_path
          page_range = Inr (fs2, w2)
      \<longrightarrow> (\<forall>r. r < next_block w \<longrightarrow> blocks w2 r = blocks w r)
          \<and> (\<forall>a. a < next_bbox w \<longrightarrow> bboxes w2 a = bboxes w a))
   \<and> (process_large_pdf_in_batches config unicode_font has_page w fs pages text_blocks
          output_dir pages_per_batch = Inr (batch_files, fs', w3)
      \<longrightarrow> (\<forall>r. r < next_block w \<longrightarrow> blocks w3 r = blocks w r)
          \<and> (\<forall>a. a < next_bbox w \<longrightarrow> bboxes w3 a = bboxes w a))"
proof -
  have a: "translate_text_blocks client config w text_blocks source_lang target_lang = Inr (res, w1)
      \<longrightarrow> bboxes w1 = bboxes w
          \<and> (\<forall>r. blocks w1 r = (blocks w r)\<lparr>translated_text := translated_text (blocks w1 r)\<rparr>)"
  proof
    assume "translate_text_blocks client config w text_blocks source_lang target_lang = Inr (res, w1)"
    then have l: "same_layout w w1" by (rule translate_text_blocks_layout)
    then show "bboxes w1 = bboxes w
          \<and> (\<forall>r. blocks w1 r = (blocks w r)\<lparr>translated_text := translated_text (blocks w1 r)\<rparr>)"
      using same_layout_blocks [OF l] by (simp add: same_layout_def)
  qed
  have b: "create_side_by_side_pdf config unicode_font has_page w fs pages text_blocks output_path
          page_range = Inr (fs2, w2)
      \<longrightarrow> (\<forall>r. r < next_block w \<longrightarrow> blocks w2 r = blocks w r)
          \<and> (\<forall>a. a < next_bbox w \<longrightarrow> bboxes w2 a = bboxes w a)"
    using create_side_by_side_pdf_keeps [of config unicode_font has_page w fs pages text_blocks
        output_path page_range fs2 w2]
    by (simp add: keeps_allocated_def)
  have c: "process_large_pdf_in_batches config unicode_font has_page w fs pages text_blocks
          output_dir pages_per_batch = Inr (batch_files, fs', w3)
      \<longrightarrow> (\<forall>r. r < next_block w \<longrightarrow> blocks w3 r = blocks w r)
          \<and> (\<forall>a. a < next_bbox w \<longrightarrow> bboxes w3 a = bboxes w a)"
    using process_large_pdf_in_batches_keeps [of config unicode_font has_page w fs pages
        text_blocks output_dir pages_per_batch batch_files fs' w3]
    by (simp add: keeps_allocated_def)
  from a b c show ?thesis by blast
qed

text \<open>Witness for C8: translating and then composing the example; both runs succeed.\<close>

theorem only_translated_text_written_witness:
  "\<exists>res w1 fs2 w2 batch_files fs' w3.
     translate_text_blocks batch_client default_config example_world [0, 2, 4] ''en'' ''es''
       = Inr (res, w1)
     \<and> bboxes w1 = bboxes example_world
     \<and> (\<forall>r. blocks w1 r
            = (blocks example_world r)\<lparr>translated_text := translated_text (blocks w1 r)\<rparr>)
     \<and> create_side_by_side_pdf default_config None example_has_page w1 Map.empty
          (extract_pages example_doc) [0, 2, 4] (NamedFile ''single.pdf'') None = Inr (fs2, w2)
     \<and> (\<forall>r. r < next_block w1 \<longrightarrow> blocks w2 r = blocks w1 r)
     \<and> (\<forall>a. a < next_bbox w1 \<longrightarrow> bboxes w2 a = bboxes w1 a)
     \<and> process_large_pdf_in_batches default_config None example_has_page w1 Map.empty
          (extract_pages example_doc) [0, 2, 4] ''out'' 2 = Inr (batch_files, fs', w3)
     \<and> (\<forall>r. r < next_block w1 \<longrightarrow> blocks w3 r = blocks w1 r)
     \<and> (\<forall>a. a < next_bbox w1 \<longrightarrow> bboxes w3 a = bboxes w1 a)"
proof -
  have "0 < batch_size default_config" by (simp add: default_config_def)
  from translate_pages_ok [OF this]
  obtain res w1 where t: "translate_text_blocks batch_client default_config example_world
      [0, 2, 4] ''en'' ''es'' = Inr (res, w1)"
    unfolding translate_text_blocks_def by blast
  have hp: "\<forall>q \<in> set (extract_pages example_doc). example_has_page (page_number q)"
    by (simp add: extract_pages_def example_doc_def example_has_page_def)
  from render_pages_ok [OF hp, of default_config None "[0, 2, 4]" w1]
  obtain d w2 where rp: "render_pages default_config None example_has_page [0, 2, 4]
      (extract_pages example_doc) w1 = Inr (d, w2)"
    and ld: "length d = length (extract_pages example_doc)"
    by blast
  from ld have "d \<noteq> []" by (auto simp: extract_pages_def example_doc_def)
  with rp have c: "create_side_by_side_pdf default_config None example_has_page w1 Map.empty
          (extract_pages example_doc) [0, 2, 4] (NamedFile ''single.pdf'') None
        = Inr ([NamedFile ''single.pdf'' \<mapsto> d], w2)"
    by (simp add: create_side_by_side_pdf_def save_def)
  obtain batch_files fs' w3 where p:
    "process_large_pdf_in_batches default_config None example_has_page w1 Map.empty
          (extract_pages example_doc) [0, 2, 4] ''out'' 2 = Inr (batch_files, fs', w3)"
    by (simp add: process_large_pdf_in_batches_def Let_def) (metis prod_cases3)
  note a = only_translated_text_written [where client = batch_client and config = default_config and w = example_world
      and text_blocks = "[0, 2, 4]" and source_lang = "''en''" and target_lang = "''es''"
      and res = res and ?w1.0 = w1]
  note b = only_translated_text_written [where config = default_config and w = w1 and text_blocks = "[0, 2, 4]"
      and unicode_font = None and has_page = example_has_page
      and pages = "extract_pages example_doc" and page_range = None
      and output_path = "NamedFile ''single.pdf''"
      and ?fs2.0 = "[NamedFile ''single.pdf'' \<mapsto> d]" and ?w2.0 = w2
      and fs = Map.empty and output_dir = "''out''" and pages_per_batch = 2
      and batch_files = batch_files and fs' = fs' and ?w3.0 = w3]
  from a t have 1: "bboxes w1 = bboxes example_world
     \<and> (\<forall>r. blocks w1 r
            = (blocks example_world r)\<lparr>translated_text := translated_text (blocks w1 r)\<rparr>)"
    by blast
  from b c have 2: "(\<forall>r. r < next_block w1 \<longrightarrow> blocks w2 r = blocks w1 r)
     \<and> (\<forall>a. a < next_bbox w1 \<longrightarrow> bboxes w2 a = bboxes w1 a)"
    by blast
  from b p have 3: "(\<forall>r. r < next_block w1 \<longrightarrow> blocks w3 r = blocks w1 r)
     \<and> (\<forall>a. a < next_bbox w1 \<longrightarrow> bboxes w3 a = bboxes w1 a)"
    by blast
  from t c p 1 2 3 show ?thesis by blast
qed

end
